theory Spec2Isabelle
  imports Main
begin

text \<open>
  A shallow embedding of \<^verbatim>\<open>cg3Dguru/user_data/core.py\<close>: the attribute descriptors
  \<^verbatim>\<open>Attr\<close> and \<^verbatim>\<open>Compound\<close>, the \<^verbatim>\<open>Record\<close> of a data block, the methods of
  \<^verbatim>\<open>BaseData\<close> that add, find and update a data block on a node, and
  \<^verbatim>\<open>Utils.find_attribute_conflicts\<close>. Python exceptions are values of the type
  \<open>error\<close>; a function that changes the scene returns its result together with
  the scene it leaves, also when it raises. The functions are modelled as they are
  written (the module-level assignment \<^verbatim>\<open>__version__ = 0.9.0\<close> is not valid Python
  and is left aside).
\<close>

section \<open>Python values, dictionaries and errors\<close>

text \<open>
  Keyword arguments (the creation flags of an attribute) are a Python dict: an
  association list with unique keys, in insertion order. Only the keys are ever
  inspected by \<^verbatim>\<open>core.py\<close>; the values are passed through to the host.
\<close>

datatype pyval = PyBool bool | PyInt int | PyStr string

type_synonym flags = "(string \<times> pyval) list"

text \<open>\<^verbatim>\<open>key in d\<close>, \<^verbatim>\<open>d.pop(key)\<close>, \<^verbatim>\<open>d[key] = v\<close> and \<^verbatim>\<open>d.update(e)\<close>.\<close>

definition has_key :: "'k \<Rightarrow> ('k \<times> 'v) list \<Rightarrow> bool" where
  "has_key k d = (k \<in> set (map fst d))"

definition pop_key :: "'k \<Rightarrow> ('k \<times> 'v) list \<Rightarrow> ('k \<times> 'v) list" where
  "pop_key k d = filter (\<lambda>kv. fst kv \<noteq> k) d"

definition set_key :: "'k \<Rightarrow> 'v \<Rightarrow> ('k \<times> 'v) list \<Rightarrow> ('k \<times> 'v) list" where
  "set_key k v d =
     (if has_key k d then map (\<lambda>kv. if fst kv = k then (k, v) else kv) d else d @ [(k, v)])"

definition dict_update :: "('k \<times> 'v) list \<Rightarrow> ('k \<times> 'v) list \<Rightarrow> ('k \<times> 'v) list" where
  "dict_update d e = fold (\<lambda>kv acc. set_key (fst kv) (snd kv) acc) e d"

text \<open>
  \<^verbatim>\<open>pm.error(msg)\<close> raises a RuntimeError in the calling script: one constructor of
  \<open>pm_msg\<close> per call site of \<^verbatim>\<open>pm.error\<close> in \<^verbatim>\<open>core.py\<close>, with the values its message
  is formatted from. The other constructors of \<open>error\<close> are the Python exceptions the
  module can raise, \<open>HostError\<close> the failure of a host (Maya) command.
\<close>

datatype pm_msg =
    InvalidCompoundType string
  | ChildrenWithMakeElements
  | MaxChildren
  | RequiredChildren string
  | NodeIsNone
  | AttrConflict "string list" string "string list"
  | NoGetAttributes string
  | UtilsConflict

datatype error =
    PmError pm_msg
  | TypeError
  | ValueError
  | IndexError
  | AttributeError
  | RecursionError
  | HostError
  | VersionUpdateException string

section \<open>Attribute descriptors: \<^verbatim>\<open>Attr\<close> and \<^verbatim>\<open>Compound\<close>\<close>

text \<open>
  A descriptor as a value: an \<^verbatim>\<open>Attr\<close> with its name, type and flags, or a
  \<^verbatim>\<open>Compound\<close> with, in addition, its target size and the children its list holds.
\<close>

datatype attr =
    Attr string string flags
  | Compound string string flags nat "attr list"

fun attr_name :: "attr \<Rightarrow> string" where
  "attr_name (Attr n t fl) = n"
| "attr_name (Compound n t fl k ch) = n"

fun attr_type_of :: "attr \<Rightarrow> string" where
  "attr_type_of (Attr n t fl) = t"
| "attr_type_of (Compound n t fl k ch) = t"

definition Attr_invalid :: "string list" where
  "Attr_invalid = [''longName'', ''ln'', ''attributeType'', ''at'', ''dataType'', ''dt'',
                   ''p'', ''parent'', ''numberOfchildren'', ''nc'']"

text \<open>\<^verbatim>\<open>for key in invalid: if key in flags: flags.pop(key)\<close>\<close>

definition clear_flags :: "string list \<Rightarrow> flags \<Rightarrow> flags" where
  "clear_flags invalid fl = fold (\<lambda>key d. if has_key key d then pop_key key d else d) invalid fl"

definition Attr_clear_invalid_flags :: "flags \<Rightarrow> flags" where
  "Attr_clear_invalid_flags fl = clear_flags Attr_invalid fl"

definition Attr_init :: "string \<Rightarrow> string \<Rightarrow> flags \<Rightarrow> attr" where
  "Attr_init n t kwargs = Attr n t (Attr_clear_invalid_flags kwargs)"

definition compound_types :: "(string \<times> nat) list" where
  "compound_types = [(''compound'', 0),
                     (''reflectance'', 3), (''spectrum'', 3),
                     (''float2'', 2), (''float3'', 3),
                     (''double2'', 2), (''double3'', 3),
                     (''long2'', 2), (''long3'', 3),
                     (''short2'', 2), (''short3'', 3)]"

text \<open>
  A \<^verbatim>\<open>Compound\<close> instance holds a reference to its list of children, and the list is
  mutated in place (\<^verbatim>\<open>append\<close>). The list objects live in a store, addressed by
  natural numbers. The default value of the parameter \<^verbatim>\<open>children = []\<close> is evaluated
  once, when the function is defined: it is one list object, at the address
  \<open>default_children\<close>, and every call that leaves the argument out receives it.
\<close>

type_synonym store = "nat \<Rightarrow> attr list"

datatype compound =
  CompoundObj (c_name: string) (c_attr_type: string) (c_flags: flags)
              (c_target_size: nat) (c_children: nat)

definition default_children :: nat where
  "default_children = 0"

text \<open>\<^verbatim>\<open>get_children\<close> and \<^verbatim>\<open>count\<close>, read in a store.\<close>

definition get_children :: "compound \<Rightarrow> store \<Rightarrow> attr list" where
  "get_children self st = st (c_children self)"

definition count :: "compound \<Rightarrow> store \<Rightarrow> nat" where
  "count self st = length (st (c_children self))"

text \<open>
  \<^verbatim>\<open>add_child\<close>: the guard is \<^verbatim>\<open>len(self._children) > self._target_size\<close>, tested
  before the append.
\<close>

definition add_child :: "compound \<Rightarrow> attr \<Rightarrow> store \<Rightarrow> (error + unit) \<times> store" where
  "add_child self child st =
     (if c_target_size self \<noteq> 0 \<and> length (st (c_children self)) > c_target_size self
      then (Inl (PmError MaxChildren), st)
      else (Inr (), st (c_children self := st (c_children self) @ [child])))"

text \<open>
  \<^verbatim>\<open>validate\<close>: the size test is shared with the creation of attributes on a node,
  which validates the descriptors of a data block.
\<close>

definition valid_size :: "nat \<Rightarrow> nat \<Rightarrow> bool" where
  "valid_size target n = (if target = 0 then n > 0 else n = target)"

definition validate :: "compound \<Rightarrow> store \<Rightarrow> error + unit" where
  "validate self st =
     (if \<not> valid_size (c_target_size self) (count self st)
      then Inl (PmError (RequiredChildren (c_attr_type self)))
      else Inr ())"

text \<open>
  \<^verbatim>\<open>_make_elements\<close>: the suffixes, the type of the children from the first character
  of the type, and the loop \<^verbatim>\<open>for i in range(0, self._target_size)\<close>.
\<close>

definition suffix_of :: "compound \<Rightarrow> string list" where
  "suffix_of self =
     (if has_key ''usedAsColor'' (c_flags self) \<or> has_key ''uac'' (c_flags self) \<or>
         c_attr_type self = ''spectrum'' \<or> c_attr_type self = ''reflectance''
      then [''R'', ''G'', ''B''] else [''X'', ''Y'', ''Z''])"

definition child_type :: "string \<Rightarrow> error + string" where
  "child_type t =
     (case t of
        [] \<Rightarrow> Inl IndexError
      | c # cs \<Rightarrow>
          Inr (if c = CHR ''f'' then ''float''
               else if c = CHR ''l'' then ''long''
               else if c = CHR ''s'' then ''short''
               else ''double''))"

fun make_elements_loop ::
  "compound \<Rightarrow> string list \<Rightarrow> string \<Rightarrow> nat list \<Rightarrow> store \<Rightarrow> (error + unit) \<times> store" where
  "make_elements_loop self suffix ty [] st = (Inr (), st)"
| "make_elements_loop self suffix ty (i # is) st =
     (if i < length suffix
      then (case add_child self (Attr_init (c_name self @ suffix ! i) ty []) st of
              (Inl e, st') \<Rightarrow> (Inl e, st')
            | (Inr u, st') \<Rightarrow> make_elements_loop self suffix ty is st')
      else (Inl IndexError, st))"

definition make_elements :: "compound \<Rightarrow> store \<Rightarrow> (error + unit) \<times> store" where
  "make_elements self st =
     (case child_type (c_attr_type self) of
        Inl e \<Rightarrow> (Inl e, st)
      | Inr ty \<Rightarrow> make_elements_loop self (suffix_of self) ty [0 ..< c_target_size self] st)"

text \<open>
  \<^verbatim>\<open>Compound.__init__(self, name, attr_type, children = [], make_elements = True, **kwargs)\<close>.
  The argument \<open>children\<close> is the address of the list the caller passes, or \<open>None\<close>
  when the caller leaves it out.
\<close>

definition Compound_init ::
  "string \<Rightarrow> string \<Rightarrow> nat option \<Rightarrow> bool \<Rightarrow> flags \<Rightarrow> store \<Rightarrow> (error + compound) \<times> store" where
  "Compound_init n t children mk kwargs st =
     (case map_of compound_types t of
        None \<Rightarrow> (Inl (PmError (InvalidCompoundType t)), st)
      | Some k \<Rightarrow>
          (let self = CompoundObj n t (Attr_clear_invalid_flags kwargs) k
                        (case children of None \<Rightarrow> default_children | Some r \<Rightarrow> r)
           in if k \<noteq> 0 \<and> mk
              then (if st (c_children self) \<noteq> []
                    then (Inl (PmError ChildrenWithMakeElements), st)
                    else (case make_elements self st of
                            (Inl e, st') \<Rightarrow> (Inl e, st')
                          | (Inr u, st') \<Rightarrow> (Inr self, st')))
              else (Inr self, st)))"

text \<open>\<^verbatim>\<open>add_child\<close> called for each descriptor of a list in turn, stopping at the first error.\<close>

fun add_children :: "compound \<Rightarrow> attr list \<Rightarrow> store \<Rightarrow> (error + unit) \<times> store" where
  "add_children self [] st = (Inr (), st)"
| "add_children self (a # as) st =
     (case add_child self a st of
        (Inl e, st') \<Rightarrow> (Inl e, st')
      | (Inr u, st') \<Rightarrow> add_children self as st')"

section \<open>Strings: \<^verbatim>\<open>str\<close>, \<^verbatim>\<open>int\<close>, \<^verbatim>\<open>split\<close>, \<^verbatim>\<open>join\<close>\<close>

text \<open>
  \<^verbatim>\<open>str(i)\<close> of a Python integer: its decimal digits, with a leading minus sign when
  negative.
\<close>

definition digit_char :: "nat \<Rightarrow> char" where
  "digit_char d = char_of (48 + d)"

fun str_nat :: "nat \<Rightarrow> string" where
  "str_nat n = (if n < 10 then [digit_char n] else str_nat (n div 10) @ [digit_char (n mod 10)])"

declare str_nat.simps [simp del]

definition str_int :: "int \<Rightarrow> string" where
  "str_int i = (if i < 0 then CHR ''-'' # str_nat (nat (- i)) else str_nat (nat i))"

text \<open>
  \<^verbatim>\<open>int(s)\<close> on a string (Python 3): white space around it is stripped; then an
  optional sign and decimal digits, with single underscores allowed between digits;
  anything else raises ValueError. Characters are bytes here, so digits and white
  space outside ASCII are not covered.
\<close>

definition is_digit :: "char \<Rightarrow> bool" where
  "is_digit c = (48 \<le> (of_char c :: nat) \<and> (of_char c :: nat) \<le> 57)"

definition digit_val :: "char \<Rightarrow> nat" where
  "digit_val c = of_char c - 48"

text \<open>
  White space, as \<^verbatim>\<open>int\<close> strips it from both ends of a string (the ASCII
  characters for which \<^verbatim>\<open>str.isspace\<close> holds).
\<close>

definition is_space :: "char \<Rightarrow> bool" where
  "is_space c = ((of_char c :: nat) \<in> set [9, 10, 11, 12, 13, 28, 29, 30, 31, 32])"

definition strip :: "string \<Rightarrow> string" where
  "strip s = rev (dropWhile is_space (rev (dropWhile is_space s)))"

text \<open>
  The digits of a literal: between two digits there may be one underscore.
\<close>

fun parse_digits :: "nat \<Rightarrow> string \<Rightarrow> error + nat" where
  "parse_digits acc [] = Inr acc"
| "parse_digits acc (c # cs) =
     (if is_digit c then parse_digits (10 * acc + digit_val c) cs
      else if c = CHR ''_''
      then (case cs of
              [] \<Rightarrow> Inl ValueError
            | d # ds \<Rightarrow> if is_digit d then parse_digits acc cs else Inl ValueError)
      else Inl ValueError)"

definition parse_nat :: "string \<Rightarrow> error + nat" where
  "parse_nat s =
     (case s of
        [] \<Rightarrow> Inl ValueError
      | c # cs \<Rightarrow> if is_digit c then parse_digits 0 s else Inl ValueError)"

definition py_int :: "string \<Rightarrow> error + int" where
  "py_int s =
     (case strip s of
        [] \<Rightarrow> Inl ValueError
      | c # cs \<Rightarrow>
          if c = CHR ''-'' then (case parse_nat cs of Inl e \<Rightarrow> Inl e | Inr n \<Rightarrow> Inr (- int n))
          else if c = CHR ''+'' then (case parse_nat cs of Inl e \<Rightarrow> Inl e | Inr n \<Rightarrow> Inr (int n))
          else (case parse_nat (strip s) of Inl e \<Rightarrow> Inl e | Inr n \<Rightarrow> Inr (int n)))"


text \<open>\<^verbatim>\<open>map(int, xs)\<close>, raising at the first element that does not parse.\<close>

fun map_int :: "string list \<Rightarrow> error + int list" where
  "map_int [] = Inr []"
| "map_int (x # xs) =
     (case py_int x of
        Inl e \<Rightarrow> Inl e
      | Inr i \<Rightarrow> (case map_int xs of Inl e \<Rightarrow> Inl e | Inr is \<Rightarrow> Inr (i # is)))"

text \<open>\<^verbatim>\<open>s.split(sep)\<close> for a separator of one character, and \<^verbatim>\<open>sep.join(xs)\<close>.\<close>

fun split :: "char \<Rightarrow> string \<Rightarrow> string list" where
  "split sep [] = [[]]"
| "split sep (c # cs) =
     (if c = sep then [] # split sep cs
      else (case split sep cs of [] \<Rightarrow> [[c]] | p # ps \<Rightarrow> (c # p) # ps))"

fun join :: "string \<Rightarrow> string list \<Rightarrow> string" where
  "join sep [] = []"
| "join sep [x] = x"
| "join sep (x # y # ys) = x @ sep @ join sep (y # ys)"

text \<open>\<^verbatim>\<open>str(t)\<close> of a tuple of integers, as \<^verbatim>\<open>format\<close> prints it.\<close>

definition repr_tuple :: "int list \<Rightarrow> string" where
  "repr_tuple v =
     (case v of
        [] \<Rightarrow> ''()''
      | [x] \<Rightarrow> ''('' @ str_int x @ '',)''
      | x # y # ys \<Rightarrow> ''('' @ join '', '' (map str_int v) @ '')'')"

text \<open>
  The order \<^verbatim>\<open><\<close> of Python on tuples of integers: the first position where the
  tuples differ decides; a proper prefix is smaller.
\<close>

fun tuple_lt :: "int list \<Rightarrow> int list \<Rightarrow> bool" where
  "tuple_lt [] [] = False"
| "tuple_lt [] (y # ys) = True"
| "tuple_lt (x # xs) [] = False"
| "tuple_lt (x # xs) (y # ys) = (if x = y then tuple_lt xs ys else x < y)"

text \<open>\<^verbatim>\<open>'.'.join(map(str, version))\<close> and \<^verbatim>\<open>'{0}:{1}'.format(name, version_string)\<close>.\<close>

definition version_string :: "int list \<Rightarrow> string" where
  "version_string v = join ''.'' (map str_int v)"

definition record_string :: "string \<Rightarrow> string \<Rightarrow> string" where
  "record_string n vs = n @ '':'' @ vs"

section \<open>Index of a new record\<close>

text \<open>
  The index computation of \<^verbatim>\<open>_add_data_to_records\<close>, from the list
  \<^verbatim>\<open>indices = self._records.getArrayIndices()\<close>:
  \<^verbatim>\<open>for i in range(0, indices[-1]): if not i in indices: idx = i; break\<close>,
  with \<open>-1\<close> for "no hole found".
\<close>

fun first_hole :: "nat list \<Rightarrow> nat list \<Rightarrow> int" where
  "first_hole [] indices = - 1"
| "first_hole (i # is) indices = (if i \<in> set indices then first_hole is indices else int i)"

definition record_index :: "nat list \<Rightarrow> int" where
  "record_index indices =
     (if indices = [] then 0
      else (let idx = first_hole [0 ..< last indices] indices
            in if idx = - 1 then int (last indices) + 1 else idx))"

section \<open>The host scene\<close>

text \<open>
  The host application is not part of the module. Its scene is modelled by what the
  module can observe of it. A node is the list of its attributes, in creation order;
  an attribute has a long name, the name of its parent, a value and, when it is a
  multi attribute, its elements (logical index, value, locked), kept in increasing
  order of index. A deleted node leaves \<open>None\<close> behind, so that the handles of the
  other nodes stay valid. A host command that fails raises (\<open>HostError\<close>) and
  leaves the scene as it was. Built-in attributes of a node type, attribute types
  and the creation flags other than \<^verbatim>\<open>parent\<close> and \<^verbatim>\<open>m\<close> are not modelled.
\<close>

datatype mattr =
  MAttr (a_ln: string) (a_parent: "string option") (a_val: string)
        (a_elems: "(nat \<times> string \<times> bool) list option")

type_synonym node = "mattr list"

text \<open>
  The hooks \<^verbatim>\<open>post_create\<close> and \<^verbatim>\<open>post_update_version\<close> do nothing in
  \<^verbatim>\<open>BaseData\<close>. That they were called, and with what, is kept in a log.
\<close>

datatype hook_call = PostCreate "nat \<times> string" | PostUpdateVersion "nat \<times> string" bool

record world =
  nodes :: "node option list"
  calls :: "hook_call list"

definition get_node :: "world \<Rightarrow> nat \<Rightarrow> node option" where
  "get_node w n = (if n < length (nodes w) then nodes w ! n else None)"

definition put_node :: "nat \<Rightarrow> node \<Rightarrow> world \<Rightarrow> world" where
  "put_node n nd w = w\<lparr>nodes := (nodes w)[n := Some nd]\<rparr>"

text \<open>The truth value of a node handle: whether the node exists.\<close>

definition node_exists :: "world \<Rightarrow> nat \<Rightarrow> bool" where
  "node_exists w n = (get_node w n \<noteq> None)"

definition find_attr :: "node \<Rightarrow> string \<Rightarrow> mattr option" where
  "find_attr nd a = find (\<lambda>x. a_ln x = a) nd"

text \<open>\<^verbatim>\<open>pm.general.createNode\<close>, \<^verbatim>\<open>pm.delete\<close>, \<^verbatim>\<open>pm.hasAttr\<close>, \<^verbatim>\<open>node.attr(name)\<close>.\<close>

definition createNode :: "world \<Rightarrow> nat \<times> world" where
  "createNode w = (length (nodes w), w\<lparr>nodes := nodes w @ [Some []]\<rparr>)"

definition delete :: "nat \<Rightarrow> world \<Rightarrow> (error + unit) \<times> world" where
  "delete n w =
     (if node_exists w n then (Inr (), w\<lparr>nodes := (nodes w)[n := None]\<rparr>)
      else (Inl HostError, w))"

definition hasAttr :: "world \<Rightarrow> nat \<Rightarrow> string \<Rightarrow> bool" where
  "hasAttr w n a =
     (case get_node w n of None \<Rightarrow> False | Some nd \<Rightarrow> a \<in> set (map a_ln nd))"

definition node_attr :: "world \<Rightarrow> nat \<Rightarrow> string \<Rightarrow> error + nat \<times> string" where
  "node_attr w n a = (if hasAttr w n a then Inr (n, a) else Inl HostError)"

text \<open>
  \<^verbatim>\<open>pm.addAttr(node, ln = a, parent = p, m = multi)\<close>: a name already on the node is
  refused. \<^verbatim>\<open>pm.deleteAttr(node, at = a)\<close> removes the attribute and its descendants
  (a child is created after its parent). \<^verbatim>\<open>pm.copyAttr(src, dst, at = names, values = True)\<close>
  needs every name on both nodes and copies the values.
\<close>

definition addAttr :: "nat \<Rightarrow> string \<Rightarrow> string option \<Rightarrow> bool \<Rightarrow> world \<Rightarrow> (error + unit) \<times> world" where
  "addAttr n a par multi w =
     (case get_node w n of
        None \<Rightarrow> (Inl HostError, w)
      | Some nd \<Rightarrow>
          if a \<in> set (map a_ln nd) then (Inl HostError, w)
          else (Inr (), put_node n (nd @ [MAttr a par [] (if multi then Some [] else None)]) w))"

fun remove_tree :: "string list \<Rightarrow> node \<Rightarrow> node" where
  "remove_tree dead [] = []"
| "remove_tree dead (x # xs) =
     (if a_ln x \<in> set dead \<or> (case a_parent x of None \<Rightarrow> False | Some p \<Rightarrow> p \<in> set dead)
      then remove_tree (a_ln x # dead) xs
      else x # remove_tree dead xs)"

definition deleteAttr :: "nat \<Rightarrow> string \<Rightarrow> world \<Rightarrow> (error + unit) \<times> world" where
  "deleteAttr n a w =
     (case get_node w n of
        None \<Rightarrow> (Inl HostError, w)
      | Some nd \<Rightarrow>
          if a \<in> set (map a_ln nd) then (Inr (), put_node n (remove_tree [a] nd) w)
          else (Inl HostError, w))"

definition attr_val :: "node \<Rightarrow> string \<Rightarrow> string" where
  "attr_val nd a = (case find_attr nd a of None \<Rightarrow> [] | Some x \<Rightarrow> a_val x)"

definition copy_vals :: "node \<Rightarrow> string list \<Rightarrow> node \<Rightarrow> node" where
  "copy_vals src names dst =
     map (\<lambda>x. if a_ln x \<in> set names
              then MAttr (a_ln x) (a_parent x) (attr_val src (a_ln x)) (a_elems x)
              else x) dst"

definition copyAttr :: "nat \<Rightarrow> nat \<Rightarrow> string list \<Rightarrow> world \<Rightarrow> (error + unit) \<times> world" where
  "copyAttr src dst names w =
     (case get_node w src of
        None \<Rightarrow> (Inl HostError, w)
      | Some s \<Rightarrow>
          (case get_node w dst of
             None \<Rightarrow> (Inl HostError, w)
           | Some d \<Rightarrow>
               if list_all (\<lambda>a. a \<in> set (map a_ln s) \<and> a \<in> set (map a_ln d)) names
               then (Inr (), put_node dst (copy_vals s names d) w)
               else (Inl HostError, w)))"

text \<open>
  The elements of a multi attribute: \<^verbatim>\<open>getArrayIndices\<close>, and \<^verbatim>\<open>get\<close>, \<^verbatim>\<open>set\<close>,
  \<^verbatim>\<open>lock\<close>, \<^verbatim>\<open>unlock\<close> on the element \<^verbatim>\<open>attr[i]\<close>. Setting a locked element is
  refused; an element that is written or locked comes into existence.
\<close>

definition multi_elems :: "world \<Rightarrow> nat \<Rightarrow> string \<Rightarrow> (nat \<times> string \<times> bool) list option" where
  "multi_elems w n a =
     (case get_node w n of
        None \<Rightarrow> None
      | Some nd \<Rightarrow> (case find_attr nd a of None \<Rightarrow> None | Some x \<Rightarrow> a_elems x))"

definition put_elems :: "nat \<Rightarrow> string \<Rightarrow> (nat \<times> string \<times> bool) list \<Rightarrow> world \<Rightarrow> world" where
  "put_elems n a es w =
     (case get_node w n of
        None \<Rightarrow> w
      | Some nd \<Rightarrow>
          put_node n (map (\<lambda>x. if a_ln x = a then MAttr (a_ln x) (a_parent x) (a_val x) (Some es)
                               else x) nd) w)"

definition insert_elem ::
  "nat \<Rightarrow> string \<times> bool \<Rightarrow> (nat \<times> string \<times> bool) list \<Rightarrow> (nat \<times> string \<times> bool) list" where
  "insert_elem i e es = filter (\<lambda>x. fst x < i) es @ [(i, e)] @ filter (\<lambda>x. i < fst x) es"

definition getArrayIndices :: "world \<Rightarrow> nat \<Rightarrow> string \<Rightarrow> error + nat list" where
  "getArrayIndices w n a =
     (case multi_elems w n a of None \<Rightarrow> Inl HostError | Some es \<Rightarrow> Inr (map fst es))"

definition elem_get :: "world \<Rightarrow> nat \<Rightarrow> string \<Rightarrow> nat \<Rightarrow> error + string" where
  "elem_get w n a i =
     (case multi_elems w n a of
        None \<Rightarrow> Inl HostError
      | Some es \<Rightarrow> Inr (case map_of es i of None \<Rightarrow> [] | Some e \<Rightarrow> fst e))"

definition elem_set :: "nat \<Rightarrow> string \<Rightarrow> nat \<Rightarrow> string \<Rightarrow> world \<Rightarrow> (error + unit) \<times> world" where
  "elem_set n a i v w =
     (case multi_elems w n a of
        None \<Rightarrow> (Inl HostError, w)
      | Some es \<Rightarrow>
          (case map_of es i of
             None \<Rightarrow> (Inr (), put_elems n a (insert_elem i (v, False) es) w)
           | Some e \<Rightarrow>
               if snd e then (Inl HostError, w)
               else (Inr (), put_elems n a (insert_elem i (v, False) es) w)))"

definition elem_relock :: "bool \<Rightarrow> nat \<Rightarrow> string \<Rightarrow> nat \<Rightarrow> world \<Rightarrow> (error + unit) \<times> world" where
  "elem_relock l n a i w =
     (case multi_elems w n a of
        None \<Rightarrow> (Inl HostError, w)
      | Some es \<Rightarrow>
          (Inr (), put_elems n a
             (insert_elem i (case map_of es i of None \<Rightarrow> ([], l) | Some e \<Rightarrow> (fst e, l)) es) w))"

definition elem_lock :: "nat \<Rightarrow> string \<Rightarrow> nat \<Rightarrow> world \<Rightarrow> (error + unit) \<times> world" where
  "elem_lock n a i w = elem_relock True n a i w"

definition elem_unlock :: "nat \<Rightarrow> string \<Rightarrow> nat \<Rightarrow> world \<Rightarrow> (error + unit) \<times> world" where
  "elem_unlock n a i w = elem_relock False n a i w"

definition elem_locked :: "world \<Rightarrow> nat \<Rightarrow> string \<Rightarrow> nat \<Rightarrow> bool" where
  "elem_locked w n a i =
     (case multi_elems w n a of
        None \<Rightarrow> False
      | Some es \<Rightarrow> (case map_of es i of None \<Rightarrow> False | Some e \<Rightarrow> snd e))"

section \<open>\<^verbatim>\<open>Record\<close>\<close>

definition RECORDS_NAME :: string where
  "RECORDS_NAME = ''DataRecords''"

text \<open>
  A \<^verbatim>\<open>Record\<close> holds the element of the records array it was read from (node and
  index), the name and the version. \<^verbatim>\<open>Record.__init__\<close> unpacks
  \<^verbatim>\<open>attr.get().split(':')\<close> into exactly two parts and maps \<^verbatim>\<open>int\<close> over the
  version split at the dots; both raise ValueError on a string of another shape.
\<close>

datatype record_obj =
  Record (r_attr: "nat \<times> nat") (r_name: string) (r_version: "int list")

definition Record_init :: "nat \<times> nat \<Rightarrow> world \<Rightarrow> error + record_obj" where
  "Record_init h w =
     (case elem_get w (fst h) RECORDS_NAME (snd h) of
        Inl e \<Rightarrow> Inl e
      | Inr v \<Rightarrow>
          (case split CHR '':'' v of
             [nm, str_version] \<Rightarrow>
               (case map_int (split CHR ''.'' str_version) of
                  Inl e \<Rightarrow> Inl e
                | Inr ver \<Rightarrow> Inr (Record h nm ver))
           | _ \<Rightarrow> Inl ValueError))"

text \<open>The setter of \<^verbatim>\<open>Record.version\<close>: unlock, assign, rewrite the string, lock.\<close>

definition Record_set_version ::
  "record_obj \<Rightarrow> int list \<Rightarrow> world \<Rightarrow> (error + record_obj) \<times> world" where
  "Record_set_version r v w =
     (case elem_unlock (fst (r_attr r)) RECORDS_NAME (snd (r_attr r)) w of
        (Inl e, w1) \<Rightarrow> (Inl e, w1)
      | (Inr u, w1) \<Rightarrow>
          (case elem_set (fst (r_attr r)) RECORDS_NAME (snd (r_attr r))
                  (record_string (r_name r) (version_string v)) w1 of
             (Inl e, w2) \<Rightarrow> (Inl e, w2)
           | (Inr u, w2) \<Rightarrow>
               (case elem_lock (fst (r_attr r)) RECORDS_NAME (snd (r_attr r)) w2 of
                  (Inl e, w3) \<Rightarrow> (Inl e, w3)
                | (Inr u, w3) \<Rightarrow> (Inr (Record (r_attr r) (r_name r) v), w3))))"

section \<open>\<^verbatim>\<open>BaseData\<close>\<close>

text \<open>
  A data-block class is a subclass of \<^verbatim>\<open>BaseData\<close>; what the module reads of it:
  \<^item> \<open>cls_name\<close>: \<^verbatim>\<open>cls.__name__\<close>;
  \<^item> \<open>get_data_name\<close>: what \<^verbatim>\<open>get_data_name()\<close> returns (\<^verbatim>\<open>cls.__name__\<close> unless
    overridden);
  \<^item> \<open>cls_version\<close>: the class attribute \<^verbatim>\<open>_version\<close>;
  \<^item> \<open>version_attr\<close>: a class attribute \<^verbatim>\<open>version\<close> of the subclass, when it defines
    one (a tuple of integers). \<open>None\<close> is a subclass that leaves \<^verbatim>\<open>version\<close> to
    \<^verbatim>\<open>BaseData\<close>, where it is a property;
  \<^item> \<open>get_default_flags\<close>, \<open>get_attributes\<close> (\<open>None\<close> when not overridden: it calls
    \<^verbatim>\<open>pm.error\<close>), \<open>pre_update_version\<close> (\<^verbatim>\<open>AUTO_UPDATE\<close> unless overridden);
  \<^item> \<open>GetDefaultFlags\<close>, \<open>GetAttributeNames\<close>: attributes of these names, when the
    subclass defines them. \<^verbatim>\<open>BaseData\<close> defines neither.
\<close>

record data_class =
  cls_name :: string
  get_data_name :: string
  cls_version :: "int list"
  version_attr :: "int list option"
  get_default_flags :: flags
  get_attributes :: "attr list option"
  pre_update_version :: "int list \<Rightarrow> bool"
  GetDefaultFlags :: "flags option"
  GetAttributeNames :: "string list option"

datatype data_inst = Instance (i_cls: data_class) (i_flags: flags)

definition get_class_version :: "data_class \<Rightarrow> int list" where
  "get_class_version c = cls_version c"

text \<open>
  \<^verbatim>\<open>self.version\<close> on an instance is the property, which returns
  \<^verbatim>\<open>get_class_version()\<close>, unless the subclass shadows it with a class attribute.
\<close>

definition self_version :: "data_class \<Rightarrow> int list" where
  "self_version c = (case version_attr c of None \<Rightarrow> get_class_version c | Some v \<Rightarrow> v)"

text \<open>
  \<^verbatim>\<open>get_version_string\<close> is a classmethod and evaluates \<^verbatim>\<open>cls.version\<close>: looked up
  on the class, a property is the property object itself, and
  \<^verbatim>\<open>map(str, <property>)\<close> raises TypeError (a property object is not iterable).
  Only a subclass with a class attribute \<^verbatim>\<open>version\<close> gets a string.
\<close>

definition get_version_string :: "data_class \<Rightarrow> error + string" where
  "get_version_string c =
     (case version_attr c of None \<Rightarrow> Inl TypeError | Some v \<Rightarrow> Inr (version_string v))"

definition BaseData_invalid :: "string list" where
  "BaseData_invalid = [''longName'', ''ln'', ''attribute'', ''at'', ''dataType'', ''dt'',
                       ''p'', ''parent'', ''numberOfchildren'', ''nc'']"

definition init_class_attributes :: "data_class \<Rightarrow> error + attr list" where
  "init_class_attributes c =
     (case get_attributes c of
        None \<Rightarrow> Inl (PmError (NoGetAttributes (cls_name c)))
      | Some attrs \<Rightarrow> Inr attrs)"

text \<open>
  \<^verbatim>\<open>BaseData.__init__(self, *args, **kwargs)\<close> first passes its arguments on to
  \<^verbatim>\<open>object.__init__\<close>, which raises TypeError when it is given any; so an
  instance is made without keyword arguments, and its flags are the default flags
  of the class, cleared of the reserved ones.
\<close>

definition BaseData_init :: "data_class \<Rightarrow> flags \<Rightarrow> error + data_inst" where
  "BaseData_init c kwargs =
     (if kwargs \<noteq> [] then Inl TypeError
      else (case init_class_attributes c of
              Inl e \<Rightarrow> Inl e
            | Inr attrs \<Rightarrow>
                Inr (Instance c
                       (clear_flags BaseData_invalid (dict_update (get_default_flags c) kwargs)))))"

text \<open>\<^verbatim>\<open>_get_attribute_names\<close>: the name, then the names of the children, in order.\<close>

fun attribute_names_of :: "attr \<Rightarrow> string list" where
  "attribute_names_of (Attr n t fl) = [n]"
| "attribute_names_of (Compound n t fl k ch) = n # concat (map attribute_names_of ch)"

definition get_attribute_names :: "data_class \<Rightarrow> error + string list" where
  "get_attribute_names c =
     (case init_class_attributes c of
        Inl e \<Rightarrow> Inl e
      | Inr attrs \<Rightarrow> Inr (concat (map attribute_names_of attrs)))"

subsection \<open>Records of a node\<close>

definition priv_create_records :: "nat \<Rightarrow> world \<Rightarrow> (error + unit) \<times> world" where
  "priv_create_records node w = addAttr node RECORDS_NAME None True w"

text \<open>\<^verbatim>\<open>_get_records(node, force_add)\<close>: the handle of the records array is its node.\<close>

definition priv_get_records :: "nat \<Rightarrow> bool \<Rightarrow> world \<Rightarrow> (error + nat option) \<times> world" where
  "priv_get_records node force_add w =
     (if \<not> node_exists w node then (Inl (PmError NodeIsNone), w)
      else if \<not> hasAttr w node RECORDS_NAME \<and> force_add
      then (case priv_create_records node w of
              (Inl e, w1) \<Rightarrow> (Inl e, w1)
            | (Inr u, w1) \<Rightarrow> (Inr (Some node), w1))
      else if hasAttr w node RECORDS_NAME then (Inr (Some node), w)
      else (Inr None, w))"

text \<open>
  The loop of \<^verbatim>\<open>_get_record_by_name\<close> over the indices of the array: empty elements
  are skipped, the others are split at the colon into exactly two parts.
\<close>

fun record_scan :: "world \<Rightarrow> nat \<Rightarrow> string \<Rightarrow> nat list \<Rightarrow> error + record_obj option" where
  "record_scan w node dn [] = Inr None"
| "record_scan w node dn (i # is) =
     (case elem_get w node RECORDS_NAME i of
        Inl e \<Rightarrow> Inl e
      | Inr v \<Rightarrow>
          if v = [] then record_scan w node dn is
          else (case split CHR '':'' v of
                  [nm, ver] \<Rightarrow>
                    if nm = dn
                    then (case Record_init (node, i) w of
                            Inl e \<Rightarrow> Inl e
                          | Inr r \<Rightarrow> Inr (Some r))
                    else record_scan w node dn is
                | _ \<Rightarrow> Inl ValueError))"

definition priv_get_record_by_name :: "nat \<Rightarrow> string \<Rightarrow> world \<Rightarrow> error + record_obj option" where
  "priv_get_record_by_name node dn w =
     (case fst (priv_get_records node False w) of
        Inl e \<Rightarrow> Inl e
      | Inr None \<Rightarrow> Inr None
      | Inr (Some records) \<Rightarrow>
          (case getArrayIndices w records RECORDS_NAME of
             Inl e \<Rightarrow> Inl e
           | Inr indices \<Rightarrow> record_scan w records dn indices))"

definition get_record :: "data_class \<Rightarrow> nat \<Rightarrow> world \<Rightarrow> error + record_obj option" where
  "get_record c node w = priv_get_record_by_name node (get_data_name c) w"

text \<open>
  \<^verbatim>\<open>_add_data_to_records\<close>: nothing when there is no records array; otherwise the
  index, then the string (the arguments of \<^verbatim>\<open>format\<close> are evaluated before the
  element is touched), then \<^verbatim>\<open>set\<close> and \<^verbatim>\<open>lock\<close>.
\<close>

definition priv_add_data_to_records ::
  "data_inst \<Rightarrow> nat option \<Rightarrow> world \<Rightarrow> (error + unit) \<times> world" where
  "priv_add_data_to_records self records w =
     (case records of
        None \<Rightarrow> (Inr (), w)
      | Some r \<Rightarrow>
          (case getArrayIndices w r RECORDS_NAME of
             Inl e \<Rightarrow> (Inl e, w)
           | Inr indices \<Rightarrow>
               (let idx = record_index indices in
                case get_version_string (i_cls self) of
                  Inl e \<Rightarrow> (Inl e, w)
                | Inr vs \<Rightarrow>
                    (case elem_set r RECORDS_NAME (nat idx)
                            (record_string (get_data_name (i_cls self)) vs) w of
                       (Inl e, w1) \<Rightarrow> (Inl e, w1)
                     | (Inr u, w1) \<Rightarrow> elem_lock r RECORDS_NAME (nat idx) w1))))"

subsection \<open>Attributes of a data block\<close>

text \<open>
  \<^verbatim>\<open>_find_attr_conflicts\<close>: the names to test are the flattened names of the class,
  or none when the instance being added carries the flag \<^verbatim>\<open>multi\<close> or \<^verbatim>\<open>m\<close>, and
  the data name. With a conflict, the names of all records are read (each through
  \<^verbatim>\<open>Record\<close>) for the message of \<^verbatim>\<open>pm.error\<close>.
\<close>

fun record_names :: "world \<Rightarrow> nat \<Rightarrow> nat list \<Rightarrow> error + string list" where
  "record_names w r [] = Inr []"
| "record_names w r (i # is) =
     (case Record_init (r, i) w of
        Inl e \<Rightarrow> Inl e
      | Inr rc \<Rightarrow>
          (case record_names w r is of
             Inl e \<Rightarrow> Inl e
           | Inr ns \<Rightarrow> Inr (r_name rc # ns)))"

definition priv_find_attr_conflicts ::
  "data_inst \<Rightarrow> nat \<Rightarrow> nat option \<Rightarrow> world \<Rightarrow> error + unit" where
  "priv_find_attr_conflicts self node records w =
     (case get_attribute_names (i_cls self) of
        Inl e \<Rightarrow> Inl e
      | Inr names \<Rightarrow>
          (let attr_names =
                 (if has_key ''multi'' (i_flags self) \<or> has_key ''m'' (i_flags self)
                  then [] else names) @ [get_data_name (i_cls self)];
               conflicts = filter (hasAttr w node) attr_names
           in if conflicts \<noteq> []
              then (case records of
                      None \<Rightarrow> Inl AttributeError
                    | Some r \<Rightarrow>
                        (case getArrayIndices w r RECORDS_NAME of
                           Inl e \<Rightarrow> Inl e
                         | Inr indices \<Rightarrow>
                             (case record_names w r indices of
                                Inl e \<Rightarrow> Inl e
                              | Inr rn \<Rightarrow>
                                  Inl (PmError (AttrConflict conflicts
                                         (cls_name (i_cls self)) rn)))))
              else Inr ()))"

text \<open>
  \<^verbatim>\<open>add_attr(attr, parent_name)\<close>: a compound is validated and created, then its
  children under it; the two other branches differ in the type flag only
  (\<^verbatim>\<open>dt\<close> or \<^verbatim>\<open>at\<close>), which the scene does not keep.
\<close>

fun add_attr :: "nat \<Rightarrow> attr \<Rightarrow> string \<Rightarrow> world \<Rightarrow> (error + unit) \<times> world"
and add_attr_children :: "nat \<Rightarrow> attr list \<Rightarrow> string \<Rightarrow> world \<Rightarrow> (error + unit) \<times> world" where
  "add_attr node (Attr n t fl) parent_name w =
     addAttr node n (if parent_name = [] then None else Some parent_name) False w"
| "add_attr node (Compound n t fl k ch) parent_name w =
     (if \<not> valid_size k (length ch) then (Inl (PmError (RequiredChildren t)), w)
      else (case addAttr node n (if parent_name = [] then None else Some parent_name) False w of
              (Inl e, w1) \<Rightarrow> (Inl e, w1)
            | (Inr u, w1) \<Rightarrow> add_attr_children node ch n w1))"
| "add_attr_children node [] parent_name w = (Inr (), w)"
| "add_attr_children node (a # as) parent_name w =
     (case add_attr node a parent_name w of
        (Inl e, w1) \<Rightarrow> (Inl e, w1)
      | (Inr u, w1) \<Rightarrow> add_attr_children node as parent_name w1)"

text \<open>\<^verbatim>\<open>_create_data\<close>: the compound named after the class, then the class attributes.\<close>

definition priv_create_data ::
  "data_inst \<Rightarrow> nat \<Rightarrow> world \<Rightarrow> (error + nat \<times> string) \<times> world" where
  "priv_create_data self node w =
     (let attrs = (case get_attributes (i_cls self) of None \<Rightarrow> [] | Some as \<Rightarrow> as);
          long_name = get_data_name (i_cls self)
      in case addAttr node long_name None False w of
           (Inl e, w1) \<Rightarrow> (Inl e, w1)
         | (Inr u, w1) \<Rightarrow>
             (case add_attr_children node attrs long_name w1 of
                (Inl e, w2) \<Rightarrow> (Inl e, w2)
              | (Inr u, w2) \<Rightarrow>
                  (case node_attr w2 node long_name of
                     Inl e \<Rightarrow> (Inl e, w2)
                   | Inr h \<Rightarrow> (Inr h, w2))))"

definition post_create :: "nat \<times> string \<Rightarrow> world \<Rightarrow> world" where
  "post_create data w = w\<lparr>calls := calls w @ [PostCreate data]\<rparr>"

definition post_update_version :: "nat \<times> string \<Rightarrow> bool \<Rightarrow> world \<Rightarrow> world" where
  "post_update_version data updated w = w\<lparr>calls := calls w @ [PostUpdateVersion data updated]\<rparr>"

subsection \<open>\<^verbatim>\<open>get_data\<close>, \<^verbatim>\<open>update_version\<close>, \<^verbatim>\<open>create_node\<close>\<close>

text \<open>
  The three methods call each other: \<^verbatim>\<open>get_data\<close> calls \<^verbatim>\<open>update_version\<close> on a
  stale record, which calls \<^verbatim>\<open>create_node\<close> for the scratch node, which calls
  \<^verbatim>\<open>get_data\<close> on that node. Each is first written with the \<^verbatim>\<open>get_data\<close> it calls
  as a parameter \<open>gd\<close>; the recursion is then closed over a budget of nested calls
  of \<^verbatim>\<open>get_data\<close>, whose exhaustion is Python's RecursionError.
\<close>

type_synonym get_data_fn =
  "data_inst \<Rightarrow> nat \<Rightarrow> bool \<Rightarrow> world \<Rightarrow> (error + (nat \<times> string) option) \<times> world"

definition create_node_with ::
  "get_data_fn \<Rightarrow> data_class \<Rightarrow> world \<Rightarrow> (error + nat \<times> (nat \<times> string) option) \<times> world" where
  "create_node_with gd c w =
     (case createNode w of
        (pynode, w1) \<Rightarrow>
          (case BaseData_init c [] of
             Inl e \<Rightarrow> (Inl e, w1)
           | Inr classInstance \<Rightarrow>
               (case gd classInstance pynode True w1 of
                  (Inl e, w2) \<Rightarrow> (Inl e, w2)
                | (Inr data, w2) \<Rightarrow> (Inr (pynode, data), w2))))"

definition update_message :: "string \<Rightarrow> int list \<Rightarrow> int list \<Rightarrow> string" where
  "update_message dn old_version new_version =
     ''Please impliment custom update logic for class: '' @ dn @
     ''  oldVersion: '' @ repr_tuple old_version @
     ''  newVersion: '' @ repr_tuple new_version"

definition update_version_with ::
  "get_data_fn \<Rightarrow> data_inst \<Rightarrow> nat \<Rightarrow> int list \<Rightarrow> world \<Rightarrow> (error + bool) \<times> world" where
  "update_version_with gd self node old_version_number w =
     (case create_node_with gd (i_cls self) w of
        (Inl e, w1) \<Rightarrow> (Inl e, w1)
      | (Inr (temp_node, data), w1) \<Rightarrow>
          (case get_attribute_names (i_cls self) of
             Inl e \<Rightarrow> (Inl e, w1)
           | Inr name_list \<Rightarrow>
               (case copyAttr node temp_node name_list w1 of
                  (Inl e, w2) \<Rightarrow>
                    (case delete temp_node w2 of
                       (Inl e', w3) \<Rightarrow> (Inl e', w3)
                     | (Inr u, w3) \<Rightarrow>
                         (Inl (VersionUpdateException
                                 (update_message (get_data_name (i_cls self))
                                    old_version_number (self_version (i_cls self)))), w3))
                | (Inr u, w2) \<Rightarrow>
                    (case deleteAttr node (get_data_name (i_cls self)) w2 of
                       (Inl e, w3) \<Rightarrow> (Inl e, w3)
                     | (Inr u, w3) \<Rightarrow>
                         (case priv_create_data self node w3 of
                            (Inl e, w4) \<Rightarrow> (Inl e, w4)
                          | (Inr d, w4) \<Rightarrow>
                              (case copyAttr temp_node node name_list w4 of
                                 (Inl e, w5) \<Rightarrow> (Inl e, w5)
                               | (Inr u, w5) \<Rightarrow>
                                   (case delete temp_node w5 of
                                      (Inl e, w6) \<Rightarrow> (Inl e, w6)
                                    | (Inr u, w6) \<Rightarrow> (Inr True, w6))))))))"

text \<open>The branch of \<^verbatim>\<open>get_data\<close> for a record that was found.\<close>

definition get_data_found ::
  "get_data_fn \<Rightarrow> data_inst \<Rightarrow> nat \<Rightarrow> record_obj \<Rightarrow> world \<Rightarrow>
     (error + (nat \<times> string) option) \<times> world" where
  "get_data_found gd self node rc w =
     (let data_name = get_data_name (i_cls self);
          record_version = r_version rc;
          current_version = self_version (i_cls self)
      in case (if tuple_lt record_version current_version
               then (case node_attr w node data_name of
                       Inl e \<Rightarrow> (Inl e, w)
                     | Inr old_data \<Rightarrow>
                         if pre_update_version (i_cls self) record_version
                         then (case update_version_with gd self node record_version w of
                                 (Inl e, w1) \<Rightarrow> (Inl e, w1)
                               | (Inr updated, w1) \<Rightarrow>
                                   (case (if updated
                                          then Record_set_version rc current_version w1
                                          else (Inr rc, w1)) of
                                      (Inl e, w2) \<Rightarrow> (Inl e, w2)
                                    | (Inr rc', w2) \<Rightarrow>
                                        (case node_attr w2 node data_name of
                                           Inl e \<Rightarrow> (Inl e, w2)
                                         | Inr data \<Rightarrow>
                                             (Inr (), post_update_version data updated w2))))
                         else (Inr (), w))
               else (Inr (), w)) of
           (Inl e, w') \<Rightarrow> (Inl e, w')
         | (Inr u, w') \<Rightarrow>
             (case node_attr w' node data_name of
                Inl e \<Rightarrow> (Inl e, w')
              | Inr data \<Rightarrow> (Inr (Some data), w')))"

text \<open>The branch for no record and \<^verbatim>\<open>force_add\<close>.\<close>

definition get_data_add ::
  "data_inst \<Rightarrow> nat \<Rightarrow> world \<Rightarrow> (error + (nat \<times> string) option) \<times> world" where
  "get_data_add self node w =
     (case priv_get_records node True w of
        (Inl e, w1) \<Rightarrow> (Inl e, w1)
      | (Inr records, w1) \<Rightarrow>
          (case priv_find_attr_conflicts self node records w1 of
             Inl e \<Rightarrow> (Inl e, w1)
           | Inr u \<Rightarrow>
               (case priv_create_data self node w1 of
                  (Inl e, w2) \<Rightarrow> (Inl e, w2)
                | (Inr data, w2) \<Rightarrow>
                    (case priv_add_data_to_records self records w2 of
                       (Inl e, w3) \<Rightarrow> (Inl e, w3)
                     | (Inr u, w3) \<Rightarrow> (Inr (Some data), post_create data w3)))))"

definition get_data_step :: "get_data_fn \<Rightarrow> get_data_fn" where
  "get_data_step gd self node force_add w =
     (case get_record (i_cls self) node w of
        Inl e \<Rightarrow> (Inl e, w)
      | Inr None \<Rightarrow> if force_add then get_data_add self node w else (Inr None, w)
      | Inr (Some rc) \<Rightarrow> get_data_found gd self node rc w)"

primrec get_data :: "nat \<Rightarrow> get_data_fn" where
  "get_data 0 = (\<lambda>self node force_add w. (Inl RecursionError, w))"
| "get_data (Suc d) = get_data_step (get_data d)"

definition create_node ::
  "nat \<Rightarrow> data_class \<Rightarrow> world \<Rightarrow> (error + nat \<times> (nat \<times> string) option) \<times> world" where
  "create_node d c w = create_node_with (get_data d) c w"

definition update_version ::
  "nat \<Rightarrow> data_inst \<Rightarrow> nat \<Rightarrow> int list \<Rightarrow> world \<Rightarrow> (error + bool) \<times> world" where
  "update_version d self node old_version_number w =
     update_version_with (get_data d) self node old_version_number w"

definition add_data :: "nat \<Rightarrow> data_inst \<Rightarrow> nat \<Rightarrow> world \<Rightarrow> (error + (nat \<times> string) option) \<times> world" where
  "add_data d self node w = get_data d self node True w"

section \<open>\<^verbatim>\<open>Utils.find_attribute_conflicts\<close>\<close>

text \<open>
  \<open>classes\<close> is \<^verbatim>\<open>BaseData.__subclasses__()\<close>. The dict \<^verbatim>\<open>attrs\<close> maps a name to the
  classes that claim it. The function calls \<^verbatim>\<open>subclass.GetDefaultFlags()\<close> and
  \<^verbatim>\<open>subclass.GetAttributeNames()\<close>: on a class without an attribute of that name the
  lookup raises AttributeError.
\<close>

fun collect_names ::
  "string \<Rightarrow> string list \<Rightarrow> (string \<times> string list) list \<Rightarrow> (string \<times> string list) list" where
  "collect_names cn [] attrs = attrs"
| "collect_names cn (a # as) attrs =
     collect_names cn as
       (if has_key a attrs then map (\<lambda>kv. if fst kv = a then (a, snd kv @ [cn]) else kv) attrs
        else attrs @ [(a, [cn])])"

fun scan_classes ::
  "data_class list \<Rightarrow> (string \<times> string list) list \<Rightarrow> error + (string \<times> string list) list" where
  "scan_classes [] attrs = Inr attrs"
| "scan_classes (c # cs) attrs =
     (case GetDefaultFlags c of
        None \<Rightarrow> Inl AttributeError
      | Some default_flags \<Rightarrow>
          if has_key ''m'' default_flags \<or> has_key ''multi'' default_flags
          then scan_classes cs attrs
          else (case GetAttributeNames c of
                  None \<Rightarrow> Inl AttributeError
                | Some attribute_names \<Rightarrow>
                    scan_classes cs (collect_names (cls_name c) attribute_names attrs)))"

datatype warning = AttrConflictWarning string "string list"

definition find_attribute_conflicts ::
  "data_class list \<Rightarrow> bool \<Rightarrow> (error + (string \<times> string list) list) \<times> warning list" where
  "find_attribute_conflicts classes error_on_conflict =
     (case scan_classes classes [] of
        Inl e \<Rightarrow> (Inl e, [])
      | Inr attrs \<Rightarrow>
          (let conflicts = filter (\<lambda>kv. length (snd kv) > 1) attrs;
               warnings = map (\<lambda>kv. AttrConflictWarning (fst kv) (snd kv)) conflicts
           in if conflicts \<noteq> []
              then (if error_on_conflict then (Inl (PmError UtilsConflict), warnings)
                    else (Inr conflicts, warnings))
              else (Inr conflicts, [])))"

section \<open>Auxiliary definitions and example inputs\<close>

text \<open>
  The suffixes \<^verbatim>\<open>_make_elements\<close> chooses, in terms of the keyword arguments and
  the type given to the constructor.
\<close>

definition color_suffix :: "flags \<Rightarrow> string \<Rightarrow> string list" where
  "color_suffix kwargs t =
     (if has_key ''usedAsColor'' kwargs \<or> has_key ''uac'' kwargs \<or>
         t = ''spectrum'' \<or> t = ''reflectance''
      then [''R'', ''G'', ''B''] else [''X'', ''Y'', ''Z''])"


text \<open>A store in which every list is empty, and three leaf descriptors.\<close>

definition empty_store :: store where
  "empty_store = (\<lambda>r. [])"

definition leaf_a :: attr where "leaf_a = Attr ''a'' ''float'' []"
definition leaf_b :: attr where "leaf_b = Attr ''b'' ''float'' []"
definition leaf_c :: attr where "leaf_c = Attr ''c'' ''float'' []"

text \<open>
  \<open>only_node n w w'\<close>: from \<open>w\<close> to \<open>w'\<close> no node was created or deleted, and only
  the node \<open>n\<close> may have changed.
\<close>

definition only_node :: "nat \<Rightarrow> world \<Rightarrow> world \<Rightarrow> bool" where
  "only_node n w w' =
     (length (nodes w') = length (nodes w) \<and>
      (\<forall>m. m \<noteq> n \<longrightarrow> get_node w' m = get_node w m) \<and>
      (node_exists w n \<longrightarrow> node_exists w' n))"

text \<open>
  Data-block classes. \<open>block_a\<close> follows the protocol of \<^verbatim>\<open>BaseData\<close>: it sets
  \<^verbatim>\<open>_version\<close> and overrides \<^verbatim>\<open>get_attributes\<close>, nothing else. \<open>block_b\<close> is a
  second such class that declares the same attribute name. \<open>block_v\<close> also defines
  a class attribute \<^verbatim>\<open>version\<close> and asks for updates; \<open>block_m\<close> is \<open>block_v\<close> under
  another name, with the default flag \<^verbatim>\<open>m\<close>.
\<close>

definition block_a :: data_class where
  "block_a = \<lparr>cls_name = ''BlockA'', get_data_name = ''BlockA'', cls_version = [1, 0, 0],
               version_attr = None, get_default_flags = [],
               get_attributes = Some [Attr ''speed'' ''float'' []],
               pre_update_version = (\<lambda>v. False),
               GetDefaultFlags = None, GetAttributeNames = None\<rparr>"

definition block_b :: data_class where
  "block_b = \<lparr>cls_name = ''BlockB'', get_data_name = ''BlockB'', cls_version = [1, 0, 0],
               version_attr = None, get_default_flags = [],
               get_attributes = Some [Attr ''speed'' ''float'' []],
               pre_update_version = (\<lambda>v. False),
               GetDefaultFlags = None, GetAttributeNames = None\<rparr>"

definition block_v :: data_class where
  "block_v = \<lparr>cls_name = ''BlockV'', get_data_name = ''BlockV'', cls_version = [1, 0, 0],
               version_attr = Some [1, 0, 0], get_default_flags = [],
               get_attributes = Some [Attr ''speed'' ''float'' []],
               pre_update_version = (\<lambda>v. True),
               GetDefaultFlags = None, GetAttributeNames = None\<rparr>"

definition block_m :: data_class where
  "block_m = \<lparr>cls_name = ''BlockM'', get_data_name = ''BlockM'', cls_version = [1, 0, 0],
               version_attr = Some [1, 0, 0], get_default_flags = [(''m'', PyBool True)],
               get_attributes = Some [Attr ''speed'' ''float'' []],
               pre_update_version = (\<lambda>v. True),
               GetDefaultFlags = None, GetAttributeNames = None\<rparr>"

text \<open>
  Scenes. \<open>fresh_world\<close>: one node without attributes. \<open>stale_world\<close>: one node
  with a block of \<open>block_v\<close> at version 0.9.0, whose leaf is still named
  \<^verbatim>\<open>speedOld\<close>. \<open>outdated_world\<close>: the same at version 0.9.0, with the leaf under
  its current name. \<open>current_world\<close>: one node with a block of \<open>block_v\<close> at version
  1.0.0. \<open>holed_world\<close>: one node with the blocks of two other classes, recorded
  at the indices 0 and 2.
\<close>

definition fresh_world :: world where
  "fresh_world = \<lparr>nodes = [Some []], calls = []\<rparr>"

definition stale_world :: world where
  "stale_world =
     \<lparr>nodes = [Some [MAttr ''DataRecords'' None [] (Some [(0, ''BlockV:0.9.0'', True)]),
                     MAttr ''BlockV'' None [] None,
                     MAttr ''speedOld'' (Some ''BlockV'') ''3'' None]],
      calls = []\<rparr>"

definition outdated_world :: world where
  "outdated_world =
     \<lparr>nodes = [Some [MAttr ''DataRecords'' None [] (Some [(0, ''BlockV:0.9.0'', True)]),
                     MAttr ''BlockV'' None [] None,
                     MAttr ''speed'' (Some ''BlockV'') ''3'' None]],
      calls = []\<rparr>"

definition holed_world :: world where
  "holed_world =
     \<lparr>nodes = [Some [MAttr ''DataRecords'' None []
                       (Some [(0, ''BlockX:1.0.0'', True), (2, ''BlockY:1.0.0'', True)]),
                     MAttr ''BlockX'' None [] None,
                     MAttr ''x'' (Some ''BlockX'') [] None,
                     MAttr ''BlockY'' None [] None,
                     MAttr ''y'' (Some ''BlockY'') [] None]],
      calls = []\<rparr>"

definition current_world :: world where
  "current_world =
     \<lparr>nodes = [Some [MAttr ''DataRecords'' None [] (Some [(0, ''BlockV:1.0.0'', True)]),
                     MAttr ''BlockV'' None [] None,
                     MAttr ''speed'' (Some ''BlockV'') ''3'' None]],
      calls = []\<rparr>"

section \<open>Properties of \<^verbatim>\<open>Compound\<close>\<close>

lemma has_key_pop_key: "has_key k (pop_key j d) = (k \<noteq> j \<and> has_key k d)"
  by (auto simp: has_key_def pop_key_def)

lemma has_key_clear_flags:
  "has_key k (clear_flags ks fl) = (has_key k fl \<and> k \<notin> set ks)"
  unfolding clear_flags_def
  by (induction ks arbitrary: fl) (auto simp: has_key_pop_key)

lemma clear_flags_empty: "clear_flags ks [] = []"
  unfolding clear_flags_def by (induction ks) (auto simp: has_key_def)

lemma Compound_init_fields:
  assumes "Compound_init n t children mk kwargs st0 = (Inr self, st1)"
  shows "map_of compound_types t = Some (c_target_size self) \<and> c_attr_type self = t \<and>
         c_name self = n \<and>
         c_children self = (case children of None \<Rightarrow> default_children | Some r \<Rightarrow> r)"
  using assms
  by (auto simp: Compound_init_def Let_def split: option.splits if_splits prod.splits sum.splits)

lemma Compound_init_float3_plain:
  "Compound_init ''p'' ''float3'' (Some 1) False [] empty_store =
     (Inr (CompoundObj ''p'' ''float3'' [] 3 1), empty_store)"
  by (simp add: Compound_init_def compound_types_def Attr_clear_invalid_flags_def
        clear_flags_empty)

text \<open>
  Claim C7. A \<^verbatim>\<open>Compound\<close> that was constructed has the arity \<open>N\<close> of its type in
  \<^verbatim>\<open>compound_types\<close>. In every later state of its list of children: when \<open>N > 0\<close>,
  \<^verbatim>\<open>validate()\<close> succeeds if the number of children is \<open>N\<close> and fails with the
  required-number-of-children error otherwise; when \<open>N = 0\<close> (the type
  \<^verbatim>\<open>compound\<close>), it succeeds if there is at least one child and fails otherwise.
\<close>

theorem validate_arity:
  assumes "Compound_init n t children mk kwargs st0 = (Inr self, st1)"
  shows "\<exists>N. map_of compound_types t = Some N \<and>
           (if 0 < N
            then validate self st = (if count self st = N then Inr ()
                                     else Inl (PmError (RequiredChildren t)))
            else validate self st = (if 0 < count self st then Inr ()
                                     else Inl (PmError (RequiredChildren t))))"
  using Compound_init_fields[OF assms]
  by (auto simp: validate_def valid_size_def)

theorem validate_arity_witness:
  "validate (CompoundObj ''p'' ''float3'' [] 3 1) (empty_store (1 := [leaf_a, leaf_b, leaf_c])) = Inr () \<and>
   validate (CompoundObj ''p'' ''float3'' [] 3 1) (empty_store (1 := [leaf_a, leaf_b])) =
     Inl (PmError (RequiredChildren ''float3''))"
  using validate_arity[OF Compound_init_float3_plain, of "empty_store (1 := [leaf_a, leaf_b, leaf_c])"]
        validate_arity[OF Compound_init_float3_plain, of "empty_store (1 := [leaf_a, leaf_b])"]
  by (simp add: compound_types_def count_def)

lemma add_children_ok:
  "c_target_size self \<noteq> 0 \<Longrightarrow>
   length (st (c_children self)) + length as \<le> c_target_size self + 1 \<Longrightarrow>
   add_children self as st = (Inr (), st (c_children self := st (c_children self) @ as))"
proof (induction as arbitrary: st)
  case Nil
  then show ?case by simp
next
  case (Cons a as)
  let ?st = "st (c_children self := st (c_children self) @ [a])"
  have step: "add_child self a st = (Inr (), ?st)"
    using Cons.prems by (simp add: add_child_def)
  have "add_children self as ?st = (Inr (), ?st (c_children self := ?st (c_children self) @ as))"
    using Cons.prems by (intro Cons.IH) simp_all
  with step show ?case by (auto simp: fun_eq_iff)
qed

text \<open>
  Claim C10. \<^verbatim>\<open>add_child\<close> raises the maximum-children error only when the
  number of children before the append is greater than the target size, and, for a
  fixed arity \<open>N > 0\<close>, exactly then. So, on
  a compound of fixed arity \<open>N > 0\<close> whose list is empty, \<open>N + 1\<close> calls of
  \<^verbatim>\<open>add_child\<close> in a row all succeed and leave \<open>N + 1\<close> children, and every further
  call (the \<open>N + 2\<close>-th) raises the error and leaves the list as it is.
\<close>

theorem add_child_guard_off_by_one:
  assumes "c_target_size self = N" and "0 < N"
    and "st (c_children self) = []" and "length as = N + 1"
  shows "(\<forall>c st' a. fst (add_child c a st') = Inl (PmError MaxChildren) \<longrightarrow>
                     c_target_size c < count c st') \<and>
         (\<forall>st' a. (fst (add_child self a st') = Inl (PmError MaxChildren)) = (N < count self st')) \<and>
         add_children self as st = (Inr (), st (c_children self := as)) \<and>
         count self (st (c_children self := as)) = N + 1 \<and>
         (\<forall>a. add_child self a (st (c_children self := as)) =
               (Inl (PmError MaxChildren), st (c_children self := as)))"
proof -
  have g: "\<forall>c st' a. fst (add_child c a st') = Inl (PmError MaxChildren) \<longrightarrow>
                     c_target_size c < count c st'"
    by (simp add: add_child_def count_def)
  have a: "\<forall>st' a. (fst (add_child self a st') = Inl (PmError MaxChildren)) = (N < count self st')"
    using assms(1,2) by (simp add: add_child_def count_def)
  have b: "add_children self as st = (Inr (), st (c_children self := as))"
    using add_children_ok[of self st as] assms by simp
  have c: "count self (st (c_children self := as)) = N + 1"
    using assms(4) by (simp add: count_def)
  have d: "\<forall>a. add_child self a (st (c_children self := as)) =
               (Inl (PmError MaxChildren), st (c_children self := as))"
    using assms(1,2,4) by (simp add: add_child_def)
  from g a b c d show ?thesis by blast
qed

theorem add_child_guard_off_by_one_witness:
  "add_children (CompoundObj ''p'' ''float2'' [] 2 1) [leaf_a, leaf_b, leaf_c] empty_store =
     (Inr (), empty_store (1 := [leaf_a, leaf_b, leaf_c])) \<and>
   add_child (CompoundObj ''p'' ''float2'' [] 2 1) leaf_a (empty_store (1 := [leaf_a, leaf_b, leaf_c])) =
     (Inl (PmError MaxChildren), empty_store (1 := [leaf_a, leaf_b, leaf_c]))"
proof -
  have h1: "c_target_size (CompoundObj ''p'' ''float2'' [] 2 1) = 2" by simp
  have h2: "0 < (2::nat)" by simp
  have h3: "empty_store (c_children (CompoundObj ''p'' ''float2'' [] 2 1)) = []"
    by (simp add: empty_store_def)
  have h4: "length [leaf_a, leaf_b, leaf_c] = 2 + 1" by simp
  show ?thesis
    using add_child_guard_off_by_one[where self = "CompoundObj ''p'' ''float2'' [] 2 1"
            and N = 2 and st = empty_store and as = "[leaf_a, leaf_b, leaf_c]", OF h1 h2 h3 h4]
    by simp
qed

lemma make_elements_loop_result:
  "make_elements_loop self suffix ty is st = (Inr u, st') \<Longrightarrow>
   st' = st (c_children self := st (c_children self) @
            map (\<lambda>i. Attr_init (c_name self @ suffix ! i) ty []) is)"
proof (induction "is" arbitrary: st)
  case Nil
  then show ?case by simp
next
  case (Cons i "is")
  then show ?case
    by (auto simp: add_child_def fun_eq_iff split: if_splits)
qed

lemma make_elements_loop_ok:
  "list_all (\<lambda>i. i < length suffix) is \<Longrightarrow>
   length (st (c_children self)) + length is \<le> c_target_size self + 1 \<Longrightarrow>
   make_elements_loop self suffix ty is st =
     (Inr (), st (c_children self := st (c_children self) @
            map (\<lambda>i. Attr_init (c_name self @ suffix ! i) ty []) is))"
proof (induction "is" arbitrary: st)
  case Nil
  then show ?case by simp
next
  case (Cons i "is")
  then show ?case
    by (auto simp: add_child_def fun_eq_iff)
qed

lemma compound_types_le3: "map_of compound_types t = Some k \<Longrightarrow> k \<le> 3 \<and> t \<noteq> []"
  by (auto simp: compound_types_def split: if_splits)

lemma Attr_init_empty: "Attr_init n t [] = Attr n t []"
  by (simp add: Attr_init_def Attr_clear_invalid_flags_def clear_flags_empty)

lemma suffix_of_length: "length (suffix_of self) = 3"
  by (simp add: suffix_of_def)

lemma make_elements_ok:
  assumes "map_of compound_types (c_attr_type self) = Some (c_target_size self)"
    and "st (c_children self) = []"
  shows "\<exists>ty. child_type (c_attr_type self) = Inr ty \<and>
          make_elements self st =
            (Inr (), st (c_children self :=
               map (\<lambda>s. Attr (c_name self @ s) ty []) (take (c_target_size self) (suffix_of self))))"
proof -
  from compound_types_le3[OF assms(1)] have k: "c_target_size self \<le> 3"
    and ne: "c_attr_type self \<noteq> []" by auto
  from ne obtain ty where ty: "child_type (c_attr_type self) = Inr ty"
    by (cases "c_attr_type self") (auto simp: child_type_def)
  have all: "list_all (\<lambda>i. i < length (suffix_of self)) [0 ..< c_target_size self]"
    using k by (simp add: list_all_iff suffix_of_length)
  have len: "length (st (c_children self)) + length [0 ..< c_target_size self] \<le> c_target_size self + 1"
    using assms(2) by simp
  have "make_elements_loop self (suffix_of self) ty [0 ..< c_target_size self] st =
     (Inr (), st (c_children self := st (c_children self) @
            map (\<lambda>i. Attr_init (c_name self @ suffix_of self ! i) ty []) [0 ..< c_target_size self]))"
    using all len by (rule make_elements_loop_ok)
  moreover have "map (\<lambda>i. Attr_init (c_name self @ suffix_of self ! i) ty []) [0 ..< c_target_size self]
       = map (\<lambda>s. Attr (c_name self @ s) ty []) (take (c_target_size self) (suffix_of self))"
    using k by (simp add: list_eq_iff_nth_eq Attr_init_empty suffix_of_length)
  ultimately show ?thesis using ty assms(2) by (simp add: make_elements_def)
qed

lemma Compound_init_auto:
  assumes "st (case children of None \<Rightarrow> default_children | Some r \<Rightarrow> r) = []"
    and "map_of compound_types t = Some k" and "0 < k"
  shows "\<exists>ty. child_type t = Inr ty \<and>
           Compound_init n t children True kwargs st =
             (Inr (CompoundObj n t (Attr_clear_invalid_flags kwargs) k
                    (case children of None \<Rightarrow> default_children | Some r \<Rightarrow> r)),
              st ((case children of None \<Rightarrow> default_children | Some r \<Rightarrow> r) :=
                 map (\<lambda>s. Attr (n @ s) ty []) (take k (color_suffix kwargs t))))"
proof -
  let ?r = "case children of None \<Rightarrow> default_children | Some r \<Rightarrow> r"
  let ?self = "CompoundObj n t (Attr_clear_invalid_flags kwargs) k ?r"
  have a: "map_of compound_types (c_attr_type ?self) = Some (c_target_size ?self)"
    using assms(2) by simp
  have b: "st (c_children ?self) = []" using assms(1) by simp
  have sfx: "suffix_of ?self = color_suffix kwargs t"
    by (simp add: suffix_of_def color_suffix_def Attr_clear_invalid_flags_def
          has_key_clear_flags Attr_invalid_def)
  from make_elements_ok[where self = ?self and st = st, OF a b] obtain ty where
    ty: "child_type t = Inr ty" and
    me: "make_elements ?self st =
            (Inr (), st (?r := map (\<lambda>s. Attr (n @ s) ty []) (take k (suffix_of ?self))))"
    by auto
  show ?thesis
    using ty me assms(1,2,3) unfolding sfx
    by (simp add: Compound_init_def Let_def)
qed

text \<open>
  Claim C8. A \<^verbatim>\<open>Compound\<close> of a type of three components, constructed with
  auto-generation (the list it receives is empty), gets exactly three children. They
  are named \<open>{name}R, {name}G, {name}B\<close> when the type is flagged as colour (flag
  \<^verbatim>\<open>usedAsColor\<close> or \<^verbatim>\<open>uac\<close>, or type \<^verbatim>\<open>spectrum\<close> or \<^verbatim>\<open>reflectance\<close>), and
  \<open>{name}X, {name}Y, {name}Z\<close> otherwise. For the float type of three components,
  \<^verbatim>\<open>float3\<close>, the children have the element type \<^verbatim>\<open>float\<close>: without a colour flag
  they are exactly the attributes \<open>{name}X, {name}Y, {name}Z\<close> of type \<^verbatim>\<open>float\<close>.
\<close>

theorem make_elements_children:
  assumes "st (case children of None \<Rightarrow> default_children | Some r \<Rightarrow> r) = []"
    and "map_of compound_types t = Some 3"
  shows "\<exists>self st'.
           Compound_init n t children True kwargs st = (Inr self, st') \<and>
           length (get_children self st') = 3 \<and>
           (if has_key ''usedAsColor'' kwargs \<or> has_key ''uac'' kwargs \<or>
               t = ''spectrum'' \<or> t = ''reflectance''
            then map attr_name (get_children self st') = [n @ ''R'', n @ ''G'', n @ ''B'']
            else map attr_name (get_children self st') = [n @ ''X'', n @ ''Y'', n @ ''Z'']) \<and>
           (if t = ''float3''
            then map attr_type_of (get_children self st') = [''float'', ''float'', ''float''] \<and>
                 (if has_key ''usedAsColor'' kwargs \<or> has_key ''uac'' kwargs
                  then get_children self st' =
                         [Attr (n @ ''R'') ''float'' [], Attr (n @ ''G'') ''float'' [],
                          Attr (n @ ''B'') ''float'' []]
                  else get_children self st' =
                         [Attr (n @ ''X'') ''float'' [], Attr (n @ ''Y'') ''float'' [],
                          Attr (n @ ''Z'') ''float'' []])
            else True)"
proof -
  let ?r = "case children of None \<Rightarrow> default_children | Some r \<Rightarrow> r"
  have k: "0 < (3::nat)" by simp
  from Compound_init_auto[where st = st and children = children and n = n and kwargs = kwargs,
         OF assms k] obtain ty where
    ty: "child_type t = Inr ty" and
    ci: "Compound_init n t children True kwargs st =
             (Inr (CompoundObj n t (Attr_clear_invalid_flags kwargs) 3 ?r),
              st (?r := map (\<lambda>s. Attr (n @ s) ty []) (take 3 (color_suffix kwargs t))))"
    by blast
  have f3: "t = ''float3'' \<Longrightarrow> ty = ''float''"
    using ty by (simp add: child_type_def)
  show ?thesis
    apply (rule exI[of _ "CompoundObj n t (Attr_clear_invalid_flags kwargs) 3 ?r"])
    apply (rule exI[of _ "st (?r := map (\<lambda>s. Attr (n @ s) ty []) (take 3 (color_suffix kwargs t)))"])
    using ci f3
    by (auto simp: get_children_def color_suffix_def)
qed

theorem make_elements_children_witness:
  "snd (Compound_init ''p'' ''float3'' (Some 1) True [] empty_store) 1 =
     [Attr ''pX'' ''float'' [], Attr ''pY'' ''float'' [], Attr ''pZ'' ''float'' []] \<and>
   map attr_name
     (snd (Compound_init ''c'' ''double3'' (Some 1) True [(''usedAsColor'', PyBool True)] empty_store) 1) =
     [''cR'', ''cG'', ''cB'']"
proof -
  have h1: "empty_store (case Some 1 of None \<Rightarrow> default_children | Some r \<Rightarrow> r) = []"
    by (simp add: empty_store_def)
  have h2: "map_of compound_types ''float3'' = Some 3" by (simp add: compound_types_def)
  have h3: "map_of compound_types ''double3'' = Some 3" by (simp add: compound_types_def)
  from make_elements_children[where st = empty_store and children = "Some 1" and t = "''float3''"
            and n = "''p''" and kwargs = "[]", OF h1 h2]
  obtain self st' where
    ci: "Compound_init ''p'' ''float3'' (Some 1) True [] empty_store = (Inr self, st')" and
    ch: "get_children self st' =
           [Attr ''pX'' ''float'' [], Attr ''pY'' ''float'' [], Attr ''pZ'' ''float'' []]"
    by (auto simp: has_key_def)
  have r1: "c_children self = 1" using Compound_init_fields[OF ci] by simp
  from make_elements_children[where st = empty_store and children = "Some 1" and t = "''double3''"
            and n = "''c''" and kwargs = "[(''usedAsColor'', PyBool True)]", OF h1 h3]
  obtain self2 st2 where
    ci2: "Compound_init ''c'' ''double3'' (Some 1) True [(''usedAsColor'', PyBool True)] empty_store =
            (Inr self2, st2)" and
    nm2: "map attr_name (get_children self2 st2) = [''cR'', ''cG'', ''cB'']"
    by (auto simp: has_key_def)
  have r2: "c_children self2 = 1" using Compound_init_fields[OF ci2] by simp
  show ?thesis using ci ch r1 ci2 nm2 r2 by (simp add: get_children_def)
qed

lemma Compound_init_default_nonempty:
  assumes "Compound_init n t None True kw st = (Inr c, st1)"
    and "map_of compound_types t = Some k" and "0 < k"
  shows "st default_children = [] \<and> st1 default_children \<noteq> [] \<and> get_children c st1 = st1 default_children"
proof -
  have e: "st default_children = []"
    using assms by (auto simp: Compound_init_def Let_def split: if_splits prod.splits sum.splits)
  have e': "st (case None of None \<Rightarrow> default_children | Some r \<Rightarrow> r) = []" using e by simp
  from Compound_init_auto[where st = st and children = None and n = n and kwargs = kw,
         OF e' assms(2,3)] obtain ty where
    "Compound_init n t None True kw st =
             (Inr (CompoundObj n t (Attr_clear_invalid_flags kw) k default_children),
              st (default_children := map (\<lambda>s. Attr (n @ s) ty []) (take k (color_suffix kw t))))"
    by auto
  with assms(1) have c: "c = CompoundObj n t (Attr_clear_invalid_flags kw) k default_children"
    and s: "st1 = st (default_children := map (\<lambda>s. Attr (n @ s) ty []) (take k (color_suffix kw t)))"
    by auto
  have "take k (color_suffix kw t) \<noteq> []" using assms(3) by (auto simp: color_suffix_def)
  then show ?thesis using e c s by (simp add: get_children_def)
qed

lemma Compound_init_nonempty_fails:
  assumes "map_of compound_types t = Some k" and "0 < k" and "s default_children \<noteq> []"
  shows "Compound_init n t None True kw s = (Inl (PmError ChildrenWithMakeElements), s)"
  using assms by (simp add: Compound_init_def Let_def)

lemma Compound_init_later_view:
  assumes "s default_children \<noteq> []" and "Compound_init n t None mk kw s = (Inr c, s')"
  shows "c_children c = default_children \<and> s' = s"
  using assms
  by (auto simp: Compound_init_def Let_def split: option.splits if_splits prod.splits sum.splits)

text \<open>
  Claim C9. Every \<^verbatim>\<open>Compound\<close> constructed without the argument \<open>children\<close> holds
  the one default list. After a first construction of fixed arity with
  auto-generation, that list is not empty; the children generated there are the
  children of every instance constructed later without the argument; and every
  further construction of fixed arity without the argument (with
  \<^verbatim>\<open>make_elements\<close> at its default \<^verbatim>\<open>True\<close>) fails with the error of children
  given together with auto-generation, in that state and in every state where the
  default list is not empty.
\<close>

theorem shared_default_children:
  assumes "Compound_init n1 t1 None True kw1 st = (Inr c1, st1)"
    and "map_of compound_types t1 = Some k1" and "0 < k1"
    and "map_of compound_types t2 = Some k2" and "0 < k2"
  shows "c_children c1 = default_children \<and>
         (\<forall>n t mk kw s c s'. Compound_init n t None mk kw s = (Inr c, s') \<longrightarrow>
                             c_children c = default_children) \<and>
         get_children c1 st1 \<noteq> [] \<and>
         (\<forall>n t mk kw c s'. Compound_init n t None mk kw st1 = (Inr c, s') \<longrightarrow>
                           get_children c s' = get_children c1 st1) \<and>
         Compound_init n2 t2 None True kw2 st1 = (Inl (PmError ChildrenWithMakeElements), st1) \<and>
         (\<forall>s. s default_children \<noteq> [] \<longrightarrow>
              Compound_init n2 t2 None True kw2 s = (Inl (PmError ChildrenWithMakeElements), s))"
proof -
  from Compound_init_default_nonempty[OF assms(1,2,3)]
  have ne: "st1 default_children \<noteq> []" and g: "get_children c1 st1 = st1 default_children" by auto
  have a: "c_children c1 = default_children"
    using Compound_init_fields[OF assms(1)] by simp
  have b: "\<forall>n t mk kw s c s'. Compound_init n t None mk kw s = (Inr c, s') \<longrightarrow>
                             c_children c = default_children"
    using Compound_init_fields by fastforce
  have c: "\<forall>n t mk kw c s'. Compound_init n t None mk kw st1 = (Inr c, s') \<longrightarrow>
                           get_children c s' = get_children c1 st1"
  proof (intro allI impI)
    fix n t mk kw c s'
    assume h: "Compound_init n t None mk kw st1 = (Inr c, s')"
    from Compound_init_later_view[where s = st1, OF ne h]
    have "c_children c = default_children" and "s' = st1" by auto
    then show "get_children c s' = get_children c1 st1" using g by (simp add: get_children_def)
  qed
  have d: "\<forall>s. s default_children \<noteq> [] \<longrightarrow>
              Compound_init n2 t2 None True kw2 s = (Inl (PmError ChildrenWithMakeElements), s)"
    using Compound_init_nonempty_fails[where t = t2 and k = k2, OF assms(4,5)] by blast
  from a b c d ne g show ?thesis by auto
qed

lemma Compound_init_first:
  "Compound_init ''a'' ''float3'' None True [] empty_store =
     (Inr (CompoundObj ''a'' ''float3'' [] 3 0),
      empty_store (0 := [Attr ''aX'' ''float'' [], Attr ''aY'' ''float'' [], Attr ''aZ'' ''float'' []]))"
  by (simp add: Compound_init_def compound_types_def Attr_clear_invalid_flags_def clear_flags_def
        Attr_invalid_def has_key_def pop_key_def empty_store_def make_elements_def child_type_def
        suffix_of_def add_child_def Attr_init_def upt_conv_Cons default_children_def fun_eq_iff)

theorem shared_default_children_witness:
  "Compound_init ''b'' ''double3'' None True []
     (empty_store (0 := [Attr ''aX'' ''float'' [], Attr ''aY'' ''float'' [], Attr ''aZ'' ''float'' []])) =
     (Inl (PmError ChildrenWithMakeElements),
      empty_store (0 := [Attr ''aX'' ''float'' [], Attr ''aY'' ''float'' [], Attr ''aZ'' ''float'' []]))"
proof -
  have h2: "map_of compound_types ''float3'' = Some 3" by (simp add: compound_types_def)
  have h3: "0 < (3::nat)" by simp
  have h4: "map_of compound_types ''double3'' = Some 3" by (simp add: compound_types_def)
  show ?thesis
    using shared_default_children[OF Compound_init_first h2 h3 h4 h3, of "''b''" "[]"] by simp
qed


section \<open>Properties of the index of a new record\<close>

lemma first_hole_find:
  "first_hole xs S = (case find (\<lambda>i. i \<notin> set S) xs of None \<Rightarrow> - 1 | Some i \<Rightarrow> int i)"
  by (induction xs) auto

lemma find_app:
  "find P (xs @ ys) = (case find P xs of None \<Rightarrow> find P ys | Some x \<Rightarrow> Some x)"
  by (induction xs) auto

lemma find_upt_least:
  "find P [0 ..< m] = (if \<exists>i<m. P i then Some (LEAST i. P i) else None)"
proof (induction m)
  case 0
  then show ?case by simp
next
  case (Suc m)
  show ?case
  proof (cases "\<exists>i<m. P i")
    case True
    then have "\<exists>i<Suc m. P i" using less_Suc_eq by blast
    with True Suc show ?thesis by (simp add: find_app)
  next
    case False
    then have none: "find P [0 ..< m] = None" using Suc by simp
    show ?thesis
    proof (cases "P m")
      case True
      have "(LEAST i. P i) = m"
      proof (rule Least_equality)
        show "P m" by (rule True)
        fix y assume "P y"
        then show "m \<le> y" using False by (meson not_le_imp_less)
      qed
      moreover have "\<exists>i<Suc m. P i" using True by blast
      ultimately show ?thesis using none True by (simp add: find_app)
    next
      case pm: False
      have "\<not> (\<exists>i<Suc m. P i)" using False pm less_Suc_eq by blast
      then show ?thesis using none pm by (simp add: find_app)
    qed
  qed
qed

lemma sorted_le_last: "sorted xs \<Longrightarrow> x \<in> set xs \<Longrightarrow> x \<le> last (xs :: nat list)"
  by (induction xs) auto

lemma sorted_last_Max:
  assumes "sorted xs" "xs \<noteq> []"
  shows "last xs = Max (set (xs :: nat list))"
proof -
  have "Max (set xs) = last xs"
  proof (rule Max_eqI)
    show "finite (set xs)" by simp
    show "\<And>y. y \<in> set xs \<Longrightarrow> y \<le> last xs" using assms(1) by (rule sorted_le_last)
    show "last xs \<in> set xs" using assms(2) by simp
  qed
  then show ?thesis by simp
qed

lemma record_index_cases:
  assumes "sorted indices"
  shows "record_index indices =
           (if indices = [] then 0
            else if \<exists>i < Max (set indices). i \<notin> set indices
                 then int (LEAST i. i \<notin> set indices)
                 else int (Max (set indices)) + 1)"
proof (cases "indices = []")
  case True
  then show ?thesis by (simp add: record_index_def)
next
  case False
  then have m: "last indices = Max (set indices)" using assms by (simp add: sorted_last_Max)
  show ?thesis
  proof (cases "\<exists>i < Max (set indices). i \<notin> set indices")
    case True
    then have "find (\<lambda>i. i \<notin> set indices) [0 ..< Max (set indices)] =
               Some (LEAST i. i \<notin> set indices)"
      by (simp add: find_upt_least)
    then show ?thesis using False True
      by (simp add: record_index_def first_hole_find m)
  next
    case no: False
    then have "find (\<lambda>i. i \<notin> set indices) [0 ..< Max (set indices)] = None"
      by (simp add: find_upt_least)
    then show ?thesis using False no
      by (auto simp: record_index_def first_hole_find m)
  qed
qed

lemma record_index_unused:
  assumes "sorted indices"
  shows "0 \<le> record_index indices \<and> nat (record_index indices) \<notin> set indices"
proof (cases "indices = []")
  case True
  then show ?thesis by (simp add: record_index_def)
next
  case False
  show ?thesis
  proof (cases "\<exists>i < Max (set indices). i \<notin> set indices")
    case True
    then obtain i where "i \<notin> set indices" by blast
    then have "(LEAST i. i \<notin> set indices) \<notin> set indices" by (rule LeastI)
    then show ?thesis using record_index_cases[OF assms] False True by simp
  next
    case no: False
    have "Max (set indices) + 1 \<notin> set indices"
    proof
      assume "Max (set indices) + 1 \<in> set indices"
      then have "Max (set indices) + 1 \<le> Max (set indices)" by (intro Max_ge) simp_all
      then show False by simp
    qed
    moreover have "nat (int (Max (set indices)) + 1) = Max (set indices) + 1" by simp
    ultimately show ?thesis using record_index_cases[OF assms] False no by simp
  qed
qed

section \<open>Properties of the strings of a record\<close>

lemma is_digit_digit_char: "d < 10 \<Longrightarrow> is_digit (digit_char d)"
  by (simp add: is_digit_def digit_char_def)

lemma digit_val_digit_char: "d < 10 \<Longrightarrow> digit_val (digit_char d) = d"
  by (simp add: digit_val_def digit_char_def)

lemma parse_digits_all_digits:
  "list_all is_digit xs \<Longrightarrow>
   parse_digits acc xs = Inr (foldl (\<lambda>a c. 10 * a + digit_val c) acc xs)"
  by (induction xs arbitrary: acc) auto

lemma str_nat_digits: "c \<in> set (str_nat n) \<Longrightarrow> is_digit c"
proof (induction n rule: str_nat.induct)
  case (1 n)
  then show ?case
    by (cases "n < 10") (auto simp: str_nat.simps[of n] is_digit_digit_char)
qed

lemma str_nat_value: "foldl (\<lambda>a c. 10 * a + digit_val c) 0 (str_nat n) = n"
proof (induction n rule: str_nat.induct)
  case (1 n)
  show ?case
  proof (cases "n < 10")
    case True
    then show ?thesis by (simp add: str_nat.simps[of n] digit_val_digit_char)
  next
    case False
    then have "foldl (\<lambda>a c. 10 * a + digit_val c) 0 (str_nat (n div 10)) = n div 10"
      using 1 by simp
    then show ?thesis using False
      by (simp add: str_nat.simps[of n] digit_val_digit_char)
  qed
qed

lemma parse_digits_str_nat: "parse_digits 0 (str_nat n) = Inr n"
  using parse_digits_all_digits[of "str_nat n" 0] str_nat_digits[of _ n]
  by (simp add: list_all_iff str_nat_value)

lemma str_nat_nonempty: "str_nat n \<noteq> []"
  by (cases "n < 10") (simp_all add: str_nat.simps[of n])

lemma parse_nat_str_nat: "parse_nat (str_nat n) = Inr n"
proof -
  obtain c cs where s: "str_nat n = c # cs"
    using str_nat_nonempty[of n] by (cases "str_nat n") auto
  then have "is_digit c" using str_nat_digits[of c n] by simp
  then show ?thesis using s parse_digits_str_nat[of n] by (simp add: parse_nat_def)
qed

lemma not_digit_chars:
  "\<not> is_digit CHR ''-''" "\<not> is_digit CHR ''+''" "\<not> is_digit CHR ''.''" "\<not> is_digit CHR '':''"
  by (simp_all add: is_digit_def)

lemma digit_not_space: "is_digit c \<Longrightarrow> \<not> is_space c"
  by (auto simp: is_digit_def is_space_def)

lemma minus_not_space: "\<not> is_space CHR ''-''"
  by (simp add: is_space_def)

lemma dropWhile_none: "list_all (\<lambda>c. \<not> P c) s \<Longrightarrow> dropWhile P s = s"
  by (cases s) auto

lemma strip_no_space: "list_all (\<lambda>c. \<not> is_space c) s \<Longrightarrow> strip s = s"
proof -
  assume a: "list_all (\<lambda>c. \<not> is_space c) s"
  then have "list_all (\<lambda>c. \<not> is_space c) (rev s)" by (simp add: list_all_iff)
  then show ?thesis using a by (simp add: strip_def dropWhile_none)
qed

lemma str_int_no_space: "list_all (\<lambda>c. \<not> is_space c) (str_int i)"
  using str_nat_digits digit_not_space minus_not_space
  by (auto simp: str_int_def list_all_iff)

lemma py_int_str_int: "py_int (str_int i) = Inr i"
proof -
  have st: "strip (str_int i) = str_int i" using str_int_no_space by (rule strip_no_space)
  show ?thesis
  proof (cases "i < 0")
    case True
    then show ?thesis unfolding py_int_def st by (simp add: str_int_def parse_nat_str_nat)
  next
    case False
    obtain c cs where s: "str_nat (nat i) = c # cs"
      using str_nat_nonempty[of "nat i"] by (cases "str_nat (nat i)") auto
    then have "is_digit c" using str_nat_digits[of c "nat i"] by simp
    then have "c \<noteq> CHR ''-''" and "c \<noteq> CHR ''+''" using not_digit_chars by auto
    moreover have "parse_nat (c # cs) = Inr (nat i)" using parse_nat_str_nat[of "nat i"] s by simp
    ultimately show ?thesis using False s unfolding py_int_def st by (simp add: str_int_def)
  qed
qed

lemma str_int_chars: "c \<in> set (str_int i) \<Longrightarrow> c \<noteq> CHR ''.'' \<and> c \<noteq> CHR '':''"
  using str_nat_digits not_digit_chars
  by (auto simp: str_int_def split: if_splits)

lemma map_int_str_int: "map_int (map str_int v) = Inr v"
  by (induction v) (simp_all add: py_int_str_int)

lemma split_no_sep: "sep \<notin> set x \<Longrightarrow> split sep x = [x]"
  by (induction x) auto

lemma split_append_sep:
  "sep \<notin> set x \<Longrightarrow> split sep (x @ sep # rest) = x # split sep rest"
  by (induction x) auto

lemma split_parts_no_sep: "p \<in> set (split sep s) \<Longrightarrow> sep \<notin> set p"
  by (induction s arbitrary: p) (auto split: if_splits list.splits)

lemma split_join:
  "xs \<noteq> [] \<Longrightarrow> list_all (\<lambda>x. sep \<notin> set x) xs \<Longrightarrow> split sep (join [sep] xs) = xs"
proof (induction "[sep]" xs rule: join.induct)
  case 1
  then show ?case by simp
next
  case (2 x)
  then show ?case by (simp add: split_no_sep)
next
  case (3 x y ys)
  then show ?case by (simp add: split_append_sep)
qed

lemma join_chars: "c \<in> set (join sep xs) \<Longrightarrow> c \<in> set sep \<or> (\<exists>x \<in> set xs. c \<in> set x)"
  by (induction sep xs rule: join.induct) auto

lemma version_string_no_colon: "CHR '':'' \<notin> set (version_string v)"
  using join_chars[of "CHR '':''" "''.''" "map str_int v"] str_int_chars
  by (auto simp: version_string_def)

lemma split_version_string:
  "v \<noteq> [] \<Longrightarrow> map_int (split CHR ''.'' (version_string v)) = Inr v"
proof -
  assume "v \<noteq> []"
  moreover have "list_all (\<lambda>x. CHR ''.'' \<notin> set x) (map str_int v)"
    using str_int_chars by (auto simp: list_all_iff)
  ultimately have "split CHR ''.'' (join [CHR ''.''] (map str_int v)) = map str_int v"
    by (intro split_join) simp_all
  then show ?thesis by (simp add: version_string_def map_int_str_int)
qed

lemma split_record_string:
  "CHR '':'' \<notin> set n \<Longrightarrow> split CHR '':'' (record_string n (version_string v)) = [n, version_string v]"
  using split_append_sep[of "CHR '':''" n "version_string v"] version_string_no_colon[of v]
  by (simp add: record_string_def split_no_sep)

lemma tuple_lt_lexord: "tuple_lt a b = ((a, b) \<in> lexord {(x, y). x < y})"
  by (induction a b rule: tuple_lt.induct) auto

section \<open>Properties of \<^verbatim>\<open>Record\<close>\<close>

lemma find_attr_map:
  "(\<And>x. a_ln (f x) = a_ln x) \<Longrightarrow> find_attr (map f nd) a = map_option f (find_attr nd a)"
  unfolding find_attr_def by (induction nd) auto

lemma get_node_put_node:
  "n < length (nodes w) \<Longrightarrow> get_node (put_node n nd w) m = (if m = n then Some nd else get_node w m)"
  by (auto simp: get_node_def put_node_def)

lemma multi_elems_node: "multi_elems w n a = Some es \<Longrightarrow> n < length (nodes w)"
  by (auto simp: multi_elems_def get_node_def split: option.splits if_splits)

lemma multi_elems_put_elems:
  assumes "multi_elems w n a = Some es"
  shows "multi_elems (put_elems n a es' w) n a = Some es'"
proof -
  from assms obtain nd x where nd: "get_node w n = Some nd" and x: "find_attr nd a = Some x"
    by (auto simp: multi_elems_def split: option.splits)
  have n: "n < length (nodes w)" using assms by (rule multi_elems_node)
  let ?f = "\<lambda>x. if a_ln x = a then MAttr (a_ln x) (a_parent x) (a_val x) (Some es') else x"
  have ln: "a_ln x = a" using x unfolding find_attr_def by (auto dest: find_Some_iff[THEN iffD1])
  have "find_attr (map ?f nd) a = map_option ?f (find_attr nd a)"
    by (rule find_attr_map) simp
  then show ?thesis using nd x n ln
    by (simp add: multi_elems_def put_elems_def get_node_put_node)
qed

lemma map_of_insert_elem: "map_of (insert_elem i e es) i = Some e"
proof -
  have "map_of (filter (\<lambda>x. fst x < i) es) i = None"
    by (induction es) auto
  then show ?thesis by (simp add: insert_elem_def map_add_def)
qed

lemma elem_relock_ok:
  assumes "multi_elems w n a = Some es"
  shows "\<exists>w'. elem_relock l n a i w = (Inr (), w') \<and>
           multi_elems w' n a =
             Some (insert_elem i (case map_of es i of None \<Rightarrow> ([], l) | Some e \<Rightarrow> (fst e, l)) es)"
  using assms multi_elems_put_elems[OF assms] by (simp add: elem_relock_def)

lemma elem_set_unlocked:
  assumes "multi_elems w n a = Some es" and "map_of es i = Some (v0, False)"
  shows "\<exists>w'. elem_set n a i v w = (Inr (), w') \<and>
           multi_elems w' n a = Some (insert_elem i (v, False) es)"
  using assms multi_elems_put_elems[OF assms(1)] by (simp add: elem_set_def)

lemma Record_init_parts:
  assumes "Record_init h w = Inr r"
  shows "r_attr r = h \<and> CHR '':'' \<notin> set (r_name r) \<and> (\<exists>es. multi_elems w (fst h) RECORDS_NAME = Some es)"
proof -
  from assms obtain v sv where v: "elem_get w (fst h) RECORDS_NAME (snd h) = Inr v"
    and sp: "split CHR '':'' v = [r_name r, sv]" and h: "r_attr r = h"
    by (auto simp: Record_init_def split: sum.splits list.splits)
  have "r_name r \<in> set (split CHR '':'' v)" using sp by simp
  then have "CHR '':'' \<notin> set (r_name r)" by (rule split_parts_no_sep)
  moreover have "\<exists>es. multi_elems w (fst h) RECORDS_NAME = Some es"
    using v by (auto simp: elem_get_def split: option.splits)
  ultimately show ?thesis using h by simp
qed

lemma Record_set_version_ok:
  assumes "multi_elems w n RECORDS_NAME = Some es"
  shows "\<exists>w' es'. Record_set_version (Record (n, i) nm ver) v w = (Inr (Record (n, i) nm v), w') \<and>
           multi_elems w' n RECORDS_NAME = Some es' \<and>
           map_of es' i = Some (record_string nm (version_string v), True)"
proof -
  from elem_relock_ok[OF assms, of False i] obtain w1 es1 where
    u: "elem_unlock n RECORDS_NAME i w = (Inr (), w1)" and
    m1: "multi_elems w1 n RECORDS_NAME = Some es1" and
    e1: "es1 = insert_elem i (case map_of es i of None \<Rightarrow> ([], False) | Some e \<Rightarrow> (fst e, False)) es"
    by (auto simp: elem_unlock_def)
  have "\<exists>v0. map_of es1 i = Some (v0, False)"
    unfolding e1 by (simp add: map_of_insert_elem split: option.splits)
  then obtain v0 where "map_of es1 i = Some (v0, False)" by blast
  from elem_set_unlocked[OF m1 this, of "record_string nm (version_string v)"] obtain w2 where
    s: "elem_set n RECORDS_NAME i (record_string nm (version_string v)) w1 = (Inr (), w2)" and
    m2: "multi_elems w2 n RECORDS_NAME =
           Some (insert_elem i (record_string nm (version_string v), False) es1)"
    by blast
  from elem_relock_ok[OF m2, of True i] obtain w3 es3 where
    l: "elem_lock n RECORDS_NAME i w2 = (Inr (), w3)" and
    m3: "multi_elems w3 n RECORDS_NAME = Some es3" and
    e3: "es3 = insert_elem i (case map_of (insert_elem i (record_string nm (version_string v), False) es1) i of
               None \<Rightarrow> ([], True) | Some e \<Rightarrow> (fst e, True))
             (insert_elem i (record_string nm (version_string v), False) es1)"
    by (auto simp: elem_lock_def)
  have "map_of es3 i = Some (record_string nm (version_string v), True)"
    unfolding e3 by (simp add: map_of_insert_elem)
  with u s l m3 show ?thesis
    by (auto simp: Record_set_version_def)
qed

lemma node_attr_post_update:
  "node_attr (post_update_version data u w) n a = node_attr w n a"
  by (simp add: node_attr_def hasAttr_def get_node_def post_update_version_def)

lemma get_data_found_staleness:
  "get_data_found gd self node rc w0 =
     (case node_attr w0 node (get_data_name (i_cls self)) of
        Inl e \<Rightarrow> (Inl e, w0)
      | Inr data \<Rightarrow>
          if (r_version rc, self_version (i_cls self)) \<in> lexord {(x, y). x < y} \<and>
             pre_update_version (i_cls self) (r_version rc)
          then (case update_version_with gd self node (r_version rc) w0 of
                  (Inl e, w1) \<Rightarrow> (Inl e, w1)
                | (Inr updated, w1) \<Rightarrow>
                    (case (if updated then Record_set_version rc (self_version (i_cls self)) w1
                           else (Inr rc, w1)) of
                       (Inl e, w2) \<Rightarrow> (Inl e, w2)
                     | (Inr rc', w2) \<Rightarrow>
                         (case node_attr w2 node (get_data_name (i_cls self)) of
                            Inl e \<Rightarrow> (Inl e, w2)
                          | Inr data' \<Rightarrow>
                              (Inr (Some data'), post_update_version data' updated w2))))
          else (Inr (Some data), w0))"
  unfolding get_data_found_def Let_def tuple_lt_lexord[symmetric]
  by (auto simp: node_attr_post_update split: sum.splits prod.splits)

text \<open>
  Claim C6. For a \<^verbatim>\<open>Record\<close> read from an element of the records array and every
  non-empty tuple of integers \<open>v\<close> (such as \<open>(1, 2, 0)\<close>): the setter of
  \<^verbatim>\<open>version\<close> succeeds, leaves the element locked with the string
  \<open>name:v\<^sub>1.v\<^sub>2. ... \<close>, and constructing a \<^verbatim>\<open>Record\<close> from the element again gives the
  same name and exactly the tuple \<open>v\<close>. The comparison \<^verbatim>\<open><\<close> on version tuples is
  the lexicographic order on tuples of integers, \<open>(0,9,0) < (1,0,0)\<close>, and it is
  the staleness test of \<^verbatim>\<open>get_data\<close>. With a record of the class on the node:
  when the version of the record is smaller, in that order, than the version of
  the class and \<^verbatim>\<open>pre_update_version\<close> agrees, \<^verbatim>\<open>get_data\<close> runs
  \<^verbatim>\<open>update_version\<close>, sets the version of the record when that returned true, and
  calls \<^verbatim>\<open>post_update_version\<close>; in every other case it returns the data as it is,
  without any update.
\<close>

theorem record_version_round_trip:
  assumes "Record_init h w = Inr r" and "v \<noteq> []"
  shows "(\<exists>w'. Record_set_version r v w = (Inr (Record h (r_name r) v), w') \<and>
               elem_get w' (fst h) RECORDS_NAME (snd h) =
                 Inr (r_name r @ '':'' @ join ''.'' (map str_int v)) \<and>
               elem_locked w' (fst h) RECORDS_NAME (snd h) \<and>
               Record_init h w' = Inr (Record h (r_name r) v)) \<and>
         (\<forall>a b. tuple_lt a b = ((a, b) \<in> lexord {(x, y). x < y})) \<and>
         tuple_lt [0, 9, 0] [1, 0, 0] \<and>
         (\<forall>gd self node rc w0.
            \<not> tuple_lt (r_version rc) (self_version (i_cls self)) \<longrightarrow>
            get_data_found gd self node rc w0 =
              (case node_attr w0 node (get_data_name (i_cls self)) of
                 Inl e \<Rightarrow> (Inl e, w0)
               | Inr data \<Rightarrow> (Inr (Some data), w0))) \<and>
         (\<forall>d self node force_add rc w0.
            get_record (i_cls self) node w0 = Inr (Some rc) \<longrightarrow>
            get_data (Suc d) self node force_add w0 =
              (case node_attr w0 node (get_data_name (i_cls self)) of
                 Inl e \<Rightarrow> (Inl e, w0)
               | Inr data \<Rightarrow>
                   if (r_version rc, self_version (i_cls self)) \<in> lexord {(x, y). x < y} \<and>
                      pre_update_version (i_cls self) (r_version rc)
                   then (case update_version d self node (r_version rc) w0 of
                           (Inl e, w1) \<Rightarrow> (Inl e, w1)
                         | (Inr updated, w1) \<Rightarrow>
                             (case (if updated
                                    then Record_set_version rc (self_version (i_cls self)) w1
                                    else (Inr rc, w1)) of
                                (Inl e, w2) \<Rightarrow> (Inl e, w2)
                              | (Inr rc', w2) \<Rightarrow>
                                  (case node_attr w2 node (get_data_name (i_cls self)) of
                                     Inl e \<Rightarrow> (Inl e, w2)
                                   | Inr data' \<Rightarrow>
                                       (Inr (Some data'),
                                        post_update_version data' updated w2))))
                   else (Inr (Some data), w0)))"
proof -
  from Record_init_parts[OF assms(1)] obtain es where
    h: "r_attr r = h" and nc: "CHR '':'' \<notin> set (r_name r)" and
    m: "multi_elems w (fst h) RECORDS_NAME = Some es" by blast
  have r: "r = Record (fst h, snd h) (r_name r) (r_version r)" using h by (cases r) simp
  from Record_set_version_ok[OF m, of "snd h" "r_name r" "r_version r" v] r obtain w' es' where
    sv: "Record_set_version r v w = (Inr (Record h (r_name r) v), w')" and
    m': "multi_elems w' (fst h) RECORDS_NAME = Some es'" and
    e': "map_of es' (snd h) = Some (record_string (r_name r) (version_string v), True)"
    by auto
  have g: "elem_get w' (fst h) RECORDS_NAME (snd h) = Inr (record_string (r_name r) (version_string v))"
    using m' e' by (simp add: elem_get_def)
  have l: "elem_locked w' (fst h) RECORDS_NAME (snd h)"
    using m' e' by (simp add: elem_locked_def)
  have i: "Record_init h w' = Inr (Record h (r_name r) v)"
    using g split_record_string[OF nc, of v] split_version_string[OF assms(2)]
    by (simp add: Record_init_def)
  have first: "\<exists>w'. Record_set_version r v w = (Inr (Record h (r_name r) v), w') \<and>
               elem_get w' (fst h) RECORDS_NAME (snd h) =
                 Inr (r_name r @ '':'' @ join ''.'' (map str_int v)) \<and>
               elem_locked w' (fst h) RECORDS_NAME (snd h) \<and>
               Record_init h w' = Inr (Record h (r_name r) v)"
    using sv g l i by (auto simp: record_string_def version_string_def)
  have cmp: "\<forall>gd self node rc w0.
            \<not> tuple_lt (r_version rc) (self_version (i_cls self)) \<longrightarrow>
            get_data_found gd self node rc w0 =
              (case node_attr w0 node (get_data_name (i_cls self)) of
                 Inl e \<Rightarrow> (Inl e, w0)
               | Inr data \<Rightarrow> (Inr (Some data), w0))"
    by (simp add: get_data_found_def Let_def)
  have stale: "\<forall>d self node force_add rc w0.
            get_record (i_cls self) node w0 = Inr (Some rc) \<longrightarrow>
            get_data (Suc d) self node force_add w0 =
              (case node_attr w0 node (get_data_name (i_cls self)) of
                 Inl e \<Rightarrow> (Inl e, w0)
               | Inr data \<Rightarrow>
                   if (r_version rc, self_version (i_cls self)) \<in> lexord {(x, y). x < y} \<and>
                      pre_update_version (i_cls self) (r_version rc)
                   then (case update_version d self node (r_version rc) w0 of
                           (Inl e, w1) \<Rightarrow> (Inl e, w1)
                         | (Inr updated, w1) \<Rightarrow>
                             (case (if updated
                                    then Record_set_version rc (self_version (i_cls self)) w1
                                    else (Inr rc, w1)) of
                                (Inl e, w2) \<Rightarrow> (Inl e, w2)
                              | (Inr rc', w2) \<Rightarrow>
                                  (case node_attr w2 node (get_data_name (i_cls self)) of
                                     Inl e \<Rightarrow> (Inl e, w2)
                                   | Inr data' \<Rightarrow>
                                       (Inr (Some data'),
                                        post_update_version data' updated w2))))
                   else (Inr (Some data), w0))"
  proof (intro allI impI)
    fix d self node force_add rc w0
    assume gr: "get_record (i_cls self) node w0 = Inr (Some rc)"
    have "get_data (Suc d) self node force_add w0 = get_data_found (get_data d) self node rc w0"
      using gr by (simp add: get_data_step_def)
    then show "get_data (Suc d) self node force_add w0 =
              (case node_attr w0 node (get_data_name (i_cls self)) of
                 Inl e \<Rightarrow> (Inl e, w0)
               | Inr data \<Rightarrow>
                   if (r_version rc, self_version (i_cls self)) \<in> lexord {(x, y). x < y} \<and>
                      pre_update_version (i_cls self) (r_version rc)
                   then (case update_version d self node (r_version rc) w0 of
                           (Inl e, w1) \<Rightarrow> (Inl e, w1)
                         | (Inr updated, w1) \<Rightarrow>
                             (case (if updated
                                    then Record_set_version rc (self_version (i_cls self)) w1
                                    else (Inr rc, w1)) of
                                (Inl e, w2) \<Rightarrow> (Inl e, w2)
                              | (Inr rc', w2) \<Rightarrow>
                                  (case node_attr w2 node (get_data_name (i_cls self)) of
                                     Inl e \<Rightarrow> (Inl e, w2)
                                   | Inr data' \<Rightarrow>
                                       (Inr (Some data'),
                                        post_update_version data' updated w2))))
                   else (Inr (Some data), w0))"
      by (simp only: get_data_found_staleness update_version_def)
  qed
  have lt: "tuple_lt [0, 9, 0] [1, 0, 0]" by simp
  from first cmp lt tuple_lt_lexord stale show ?thesis by blast
qed

theorem record_version_round_trip_witness:
  "Record_init (0, 0) stale_world = Inr (Record (0, 0) ''BlockV'' [0, 9, 0]) \<and>
   [1, 2, 0] \<noteq> ([] :: int list) \<and>
   Record_init (0, 0) (snd (Record_set_version (Record (0, 0) ''BlockV'' [0, 9, 0]) [1, 2, 0] stale_world)) =
     Inr (Record (0, 0) ''BlockV'' [1, 2, 0]) \<and>
   get_record block_v 0 outdated_world = Inr (Some (Record (0, 0) ''BlockV'' [0, 9, 0])) \<and>
   get_data (Suc (Suc 0)) (Instance block_v []) 0 False outdated_world =
     (Inr (Some (0, ''BlockV'')),
      \<lparr>nodes = [Some [MAttr ''DataRecords'' None [] (Some [(0, ''BlockV:1.0.0'', True)]),
                      MAttr ''BlockV'' None [] None,
                      MAttr ''speed'' (Some ''BlockV'') ''3'' None],
                None],
       calls = [PostCreate (1, ''BlockV''), PostUpdateVersion (0, ''BlockV'') True]\<rparr>) \<and>
   get_data (Suc (Suc 0)) (Instance block_v []) 0 False current_world =
     (Inr (Some (0, ''BlockV'')), current_world)"
proof -
  have h1: "Record_init (0, 0) stale_world = Inr (Record (0, 0) ''BlockV'' [0, 9, 0])"
    by code_simp
  have h2: "[1, 2, 0] \<noteq> ([] :: int list)" by simp
  note inst = record_version_round_trip[OF h1 h2]
  from inst obtain w' where
    "Record_set_version (Record (0, 0) ''BlockV'' [0, 9, 0]) [1, 2, 0] stale_world =
       (Inr (Record (0, 0) (r_name (Record (0, 0) ''BlockV'' [0, 9, 0])) [1, 2, 0]), w')" and
    "Record_init (0, 0) w' = Inr (Record (0, 0) (r_name (Record (0, 0) ''BlockV'' [0, 9, 0])) [1, 2, 0])"
    by blast
  then have trip: "Record_init (0, 0)
      (snd (Record_set_version (Record (0, 0) ''BlockV'' [0, 9, 0]) [1, 2, 0] stale_world)) =
     Inr (Record (0, 0) ''BlockV'' [1, 2, 0])" by simp
  let ?w1 = "\<lparr>nodes = [Some [MAttr ''DataRecords'' None [] (Some [(0, ''BlockV:0.9.0'', True)]),
                      MAttr ''BlockV'' None [] None,
                      MAttr ''speed'' (Some ''BlockV'') ''3'' None],
                None],
             calls = [PostCreate (Suc 0, ''BlockV'')]\<rparr>"
  let ?w2 = "\<lparr>nodes = [Some [MAttr ''DataRecords'' None [] (Some [(0, ''BlockV:1.0.0'', True)]),
                      MAttr ''BlockV'' None [] None,
                      MAttr ''speed'' (Some ''BlockV'') ''3'' None],
                None],
             calls = [PostCreate (Suc 0, ''BlockV'')]\<rparr>"
  have c: "get_data_name block_v = ''BlockV''" "self_version block_v = [1, 0, 0]"
    "pre_update_version block_v [0, 9, 0]"
    by (simp_all add: block_v_def self_version_def)
  have g1: "get_record block_v 0 outdated_world = Inr (Some (Record (0, 0) ''BlockV'' [0, 9, 0]))"
    by code_simp
  have n1: "node_attr outdated_world 0 ''BlockV'' = Inr (0, ''BlockV'')" by code_simp
  have u1: "update_version (Suc 0) (Instance block_v []) 0 [0, 9, 0] outdated_world = (Inr True, ?w1)"
    by code_simp
  have s1: "Record_set_version (Record (0, 0) ''BlockV'' [0, 9, 0]) [1, 0, 0] ?w1 =
              (Inr (Record (0, 0) ''BlockV'' [1, 0, 0]), ?w2)"
    by code_simp
  have n2: "node_attr ?w2 0 ''BlockV'' = Inr (0, ''BlockV'')" by code_simp
  from inst have st: "\<And>d self node force_add rc w0.
      get_record (i_cls self) node w0 = Inr (Some rc) \<Longrightarrow>
      get_data (Suc d) self node force_add w0 =
              (case node_attr w0 node (get_data_name (i_cls self)) of
                 Inl e \<Rightarrow> (Inl e, w0)
               | Inr data \<Rightarrow>
                   if (r_version rc, self_version (i_cls self)) \<in> lexord {(x, y). x < y} \<and>
                      pre_update_version (i_cls self) (r_version rc)
                   then (case update_version d self node (r_version rc) w0 of
                           (Inl e, w1) \<Rightarrow> (Inl e, w1)
                         | (Inr updated, w1) \<Rightarrow>
                             (case (if updated
                                    then Record_set_version rc (self_version (i_cls self)) w1
                                    else (Inr rc, w1)) of
                                (Inl e, w2) \<Rightarrow> (Inl e, w2)
                              | (Inr rc', w2) \<Rightarrow>
                                  (case node_attr w2 node (get_data_name (i_cls self)) of
                                     Inl e \<Rightarrow> (Inl e, w2)
                                   | Inr data' \<Rightarrow>
                                       (Inr (Some data'),
                                        post_update_version data' updated w2))))
                   else (Inr (Some data), w0))"
    by blast
  have g1': "get_record (i_cls (Instance block_v [])) 0 outdated_world =
               Inr (Some (Record (0, 0) ''BlockV'' [0, 9, 0]))" using g1 by simp
  have upd: "get_data (Suc (Suc 0)) (Instance block_v []) 0 False outdated_world =
     (Inr (Some (0, ''BlockV'')),
      \<lparr>nodes = [Some [MAttr ''DataRecords'' None [] (Some [(0, ''BlockV:1.0.0'', True)]),
                      MAttr ''BlockV'' None [] None,
                      MAttr ''speed'' (Some ''BlockV'') ''3'' None],
                None],
       calls = [PostCreate (1, ''BlockV''), PostUpdateVersion (0, ''BlockV'') True]\<rparr>)"
    unfolding st[OF g1']
    by (simp add: c n1 u1 s1 n2 post_update_version_def)
  have g2: "get_record (i_cls (Instance block_v [])) 0 current_world =
              Inr (Some (Record (0, 0) ''BlockV'' [1, 0, 0]))" by code_simp
  have n3: "node_attr current_world 0 ''BlockV'' = Inr (0, ''BlockV'')" by code_simp
  have same: "get_data (Suc (Suc 0)) (Instance block_v []) 0 False current_world =
     (Inr (Some (0, ''BlockV'')), current_world)"
    unfolding st[OF g2]
    by (simp add: c n3)
  from h1 h2 trip g1 upd same show ?thesis by blast
qed

subsection \<open>The place of a new record\<close>

lemma map_of_filter_fst:
  "map_of (filter (\<lambda>x. P (fst x)) es) j = (if P j then map_of es j else None)"
  by (induction es) auto

lemma map_of_insert_elem_other: "j \<noteq> i \<Longrightarrow> map_of (insert_elem i e es) j = map_of es j"
proof -
  assume ji: "j \<noteq> i"
  have a: "map_of (filter (\<lambda>x. fst x < i) es) j = (if j < i then map_of es j else None)"
    using map_of_filter_fst[of "\<lambda>k. k < i" es j] by simp
  have b: "map_of (filter (\<lambda>x. i < fst x) es) j = (if i < j then map_of es j else None)"
    using map_of_filter_fst[of "\<lambda>k. i < k" es j] by simp
  show ?thesis using ji a b
    by (cases "j < i") (auto simp: insert_elem_def map_add_def split: option.splits)
qed

lemma insert_elem_twice: "insert_elem i e (insert_elem i e' es) = insert_elem i e es"
proof -
  have a: "filter (\<lambda>x. fst x < i) (filter (\<lambda>x. i < fst x) es) = []"
    by (induction es) auto
  have b: "filter (\<lambda>x. i < fst x) (filter (\<lambda>x. fst x < i) es) = []"
    by (induction es) auto
  show ?thesis by (simp add: insert_elem_def a b)
qed

lemma insert_elem_indices:
  "set (map fst (insert_elem i e es)) = insert i (set (map fst es))"
proof (rule set_eqI)
  fix j
  show "j \<in> set (map fst (insert_elem i e es)) \<longleftrightarrow> j \<in> insert i (set (map fst es))"
  proof (cases "j = i")
    case True
    then show ?thesis by (simp add: insert_elem_def)
  next
    case False
    then have "j < i \<or> i < j" by arith
    then show ?thesis using False by (force simp: insert_elem_def image_iff)
  qed
qed

lemma insert_elem_sorted:
  "sorted (map fst es) \<Longrightarrow> sorted (map fst (insert_elem i e es))"
  by (auto simp: insert_elem_def sorted_append sorted_filter intro: less_imp_le)

lemma elem_set_absent:
  assumes "multi_elems w n a = Some es" and "map_of es i = None"
  shows "\<exists>w'. elem_set n a i v w = (Inr (), w') \<and>
           multi_elems w' n a = Some (insert_elem i (v, False) es)"
  using assms multi_elems_put_elems[OF assms(1)] by (simp add: elem_set_def)

lemma priv_add_data_to_records_places:
  assumes "multi_elems w r RECORDS_NAME = Some es" and "sorted (map fst es)"
    and "get_version_string (i_cls self) = Inr vs"
  shows "\<exists>w'. priv_add_data_to_records self (Some r) w = (Inr (), w') \<and>
           multi_elems w' r RECORDS_NAME =
             Some (insert_elem (nat (record_index (map fst es)))
                     (record_string (get_data_name (i_cls self)) vs, True) es)"
proof -
  let ?i = "nat (record_index (map fst es))"
  let ?s = "record_string (get_data_name (i_cls self)) vs"
  have gi: "getArrayIndices w r RECORDS_NAME = Inr (map fst es)"
    using assms(1) by (simp add: getArrayIndices_def)
  have "?i \<notin> set (map fst es)" using record_index_unused[OF assms(2)] by simp
  then have none: "map_of es ?i = None" by (simp add: map_of_eq_None_iff)
  from elem_set_absent[OF assms(1) none, of ?s] obtain w1 where
    s1: "elem_set r RECORDS_NAME ?i ?s w = (Inr (), w1)" and
    m1: "multi_elems w1 r RECORDS_NAME = Some (insert_elem ?i (?s, False) es)" by blast
  from elem_relock_ok[OF m1, of True ?i] obtain w2 where
    l2: "elem_lock r RECORDS_NAME ?i w1 = (Inr (), w2)" and
    m2: "multi_elems w2 r RECORDS_NAME = Some (insert_elem ?i (?s, True) es)"
    by (auto simp: elem_lock_def map_of_insert_elem insert_elem_twice)
  show ?thesis using gi assms(3) s1 l2 m2
    by (simp add: priv_add_data_to_records_def Let_def)
qed

lemma priv_add_data_to_records_raises:
  assumes "multi_elems w r RECORDS_NAME = Some es"
    and "get_version_string (i_cls self) = Inl e"
  shows "priv_add_data_to_records self (Some r) w = (Inl e, w)"
  using assms by (simp add: priv_add_data_to_records_def Let_def getArrayIndices_def)

text \<open>
  Claim C5. For the used indices of the records array, as the host lists them in
  increasing order: the index chosen for the new record is 0 when the array is
  empty, the smallest unused index when there is an unused index below the largest
  used one, and the largest used index plus one otherwise; it is never a used one.
  Inserting into \<open>{0,1,2}\<close> picks 3, into \<open>{0,2}\<close> picks 1, into \<open>{}\<close> picks 0. The
  insert of \<^verbatim>\<open>_add_data_to_records\<close> puts the record there: when the version string
  of the class is obtained, the element at the chosen index holds
  \<open>name:version\<close> and is locked, the used indices are the old ones and the chosen
  one, still in increasing order, and every other element is as it was. When the
  version string raises, the error is passed on and the array is untouched.
\<close>

theorem record_index_allocation:
  assumes "sorted indices"
  shows "record_index indices =
           (if indices = [] then 0
            else if \<exists>i < Max (set indices). i \<notin> set indices
                 then int (LEAST i. i \<notin> set indices)
                 else int (Max (set indices)) + 1) \<and>
         nat (record_index indices) \<notin> set indices \<and>
         record_index [0, 1, 2] = 3 \<and> record_index [0, 2] = 1 \<and> record_index [] = 0 \<and>
         (\<forall>self r w es vs.
            multi_elems w r RECORDS_NAME = Some es \<and> map fst es = indices \<and>
            get_version_string (i_cls self) = Inr vs \<longrightarrow>
            (\<exists>w' es'.
               priv_add_data_to_records self (Some r) w = (Inr (), w') \<and>
               multi_elems w' r RECORDS_NAME = Some es' \<and>
               elem_get w' r RECORDS_NAME (nat (record_index indices)) =
                 Inr (get_data_name (i_cls self) @ '':'' @ vs) \<and>
               elem_locked w' r RECORDS_NAME (nat (record_index indices)) \<and>
               set (map fst es') = insert (nat (record_index indices)) (set indices) \<and>
               sorted (map fst es') \<and>
               (\<forall>j. j \<noteq> nat (record_index indices) \<longrightarrow> map_of es' j = map_of es j))) \<and>
         (\<forall>self r w es e.
            multi_elems w r RECORDS_NAME = Some es \<and>
            get_version_string (i_cls self) = Inl e \<longrightarrow>
            priv_add_data_to_records self (Some r) w = (Inl e, w))"
proof -
  have ex: "record_index [0, 1, 2] = 3 \<and> record_index [0, 2] = 1 \<and> record_index [] = 0"
    by (simp add: record_index_def upt_conv_Cons)
  have place: "\<forall>self r w es vs.
            multi_elems w r RECORDS_NAME = Some es \<and> map fst es = indices \<and>
            get_version_string (i_cls self) = Inr vs \<longrightarrow>
            (\<exists>w' es'.
               priv_add_data_to_records self (Some r) w = (Inr (), w') \<and>
               multi_elems w' r RECORDS_NAME = Some es' \<and>
               elem_get w' r RECORDS_NAME (nat (record_index indices)) =
                 Inr (get_data_name (i_cls self) @ '':'' @ vs) \<and>
               elem_locked w' r RECORDS_NAME (nat (record_index indices)) \<and>
               set (map fst es') = insert (nat (record_index indices)) (set indices) \<and>
               sorted (map fst es') \<and>
               (\<forall>j. j \<noteq> nat (record_index indices) \<longrightarrow> map_of es' j = map_of es j))"
  proof (intro allI impI)
    fix self r w es vs
    assume a: "multi_elems w r RECORDS_NAME = Some es \<and> map fst es = indices \<and>
               get_version_string (i_cls self) = Inr vs"
    let ?i = "nat (record_index indices)"
    let ?s = "record_string (get_data_name (i_cls self)) vs"
    let ?es' = "insert_elem ?i (?s, True) es"
    from a have m: "multi_elems w r RECORDS_NAME = Some es" and ix: "map fst es = indices"
      and v: "get_version_string (i_cls self) = Inr vs" by auto
    have so: "sorted (map fst es)" using assms ix by simp
    from priv_add_data_to_records_places[OF m so v] ix obtain w' where
      p: "priv_add_data_to_records self (Some r) w = (Inr (), w')" and
      m': "multi_elems w' r RECORDS_NAME = Some ?es'" by auto
    have g: "elem_get w' r RECORDS_NAME ?i = Inr (get_data_name (i_cls self) @ '':'' @ vs)"
      using m' by (simp add: elem_get_def map_of_insert_elem record_string_def)
    have l: "elem_locked w' r RECORDS_NAME ?i"
      using m' by (simp add: elem_locked_def map_of_insert_elem)
    have i: "set (map fst ?es') = insert ?i (set indices)"
      using insert_elem_indices[of ?i "(?s, True)" es] ix by simp
    have s': "sorted (map fst ?es')" using so by (rule insert_elem_sorted)
    have o: "\<forall>j. j \<noteq> ?i \<longrightarrow> map_of ?es' j = map_of es j"
      by (simp add: map_of_insert_elem_other)
    from p m' g l i s' o
    show "\<exists>w' es'.
               priv_add_data_to_records self (Some r) w = (Inr (), w') \<and>
               multi_elems w' r RECORDS_NAME = Some es' \<and>
               elem_get w' r RECORDS_NAME (nat (record_index indices)) =
                 Inr (get_data_name (i_cls self) @ '':'' @ vs) \<and>
               elem_locked w' r RECORDS_NAME (nat (record_index indices)) \<and>
               set (map fst es') = insert (nat (record_index indices)) (set indices) \<and>
               sorted (map fst es') \<and>
               (\<forall>j. j \<noteq> nat (record_index indices) \<longrightarrow> map_of es' j = map_of es j)"
      by blast
  qed
  have raise: "\<forall>self r w es e.
            multi_elems w r RECORDS_NAME = Some es \<and>
            get_version_string (i_cls self) = Inl e \<longrightarrow>
            priv_add_data_to_records self (Some r) w = (Inl e, w)"
    using priv_add_data_to_records_raises by blast
  from record_index_cases[OF assms] record_index_unused[OF assms] ex place raise
  show ?thesis by blast
qed

theorem record_index_allocation_witness:
  "sorted [0, 2 :: nat] \<and>
   getArrayIndices holed_world 0 RECORDS_NAME = Inr [0, 2] \<and>
   get_version_string block_v = Inr ''1.0.0'' \<and>
   record_index [0, 2] = 1 \<and>
   elem_get (snd (priv_add_data_to_records (Instance block_v []) (Some 0) holed_world))
     0 RECORDS_NAME 1 = Inr ''BlockV:1.0.0'' \<and>
   elem_locked (snd (priv_add_data_to_records (Instance block_v []) (Some 0) holed_world))
     0 RECORDS_NAME 1 \<and>
   getArrayIndices (snd (get_data 1 (Instance block_v []) 0 True holed_world)) 0 RECORDS_NAME =
     Inr [0, 1, 2] \<and>
   elem_get (snd (get_data 1 (Instance block_v []) 0 True holed_world)) 0 RECORDS_NAME 1 =
     Inr ''BlockV:1.0.0''"
proof -
  have s: "sorted [0, 2 :: nat]" by simp
  have gi: "getArrayIndices holed_world 0 RECORDS_NAME = Inr [0, 2]" by code_simp
  have m: "multi_elems holed_world 0 RECORDS_NAME =
             Some [(0, ''BlockX:1.0.0'', True), (2, ''BlockY:1.0.0'', True)]" by code_simp
  have ix: "map fst [(0 :: nat, ''BlockX:1.0.0'', True), (2, ''BlockY:1.0.0'', True)] = [0, 2]"
    by simp
  have v: "get_version_string (i_cls (Instance block_v [])) = Inr ''1.0.0''" by code_simp
  have dn: "get_data_name (i_cls (Instance block_v [])) = ''BlockV''" by (simp add: block_v_def)
  note inst = record_index_allocation[OF s]
  from inst have ri: "record_index [0, 2] = 1" by blast
  note pl = inst[THEN conjunct2, THEN conjunct2, THEN conjunct2, THEN conjunct2,
                  THEN conjunct2, THEN conjunct1, rule_format]
  from pl[OF conjI[OF m conjI[OF ix v]]] obtain w' where
    p: "priv_add_data_to_records (Instance block_v []) (Some 0) holed_world = (Inr (), w')" and
    g: "elem_get w' 0 RECORDS_NAME (nat (record_index [0, 2])) =
          Inr (get_data_name (i_cls (Instance block_v [])) @ '':'' @ ''1.0.0'')" and
    l: "elem_locked w' 0 RECORDS_NAME (nat (record_index [0, 2]))"
    by blast
  have g': "elem_get (snd (priv_add_data_to_records (Instance block_v []) (Some 0) holed_world))
     0 RECORDS_NAME 1 = Inr ''BlockV:1.0.0''"
    using p g ri dn by simp
  have l': "elem_locked (snd (priv_add_data_to_records (Instance block_v []) (Some 0) holed_world))
     0 RECORDS_NAME 1"
    using p l ri by simp
  have gd: "getArrayIndices (snd (get_data 1 (Instance block_v []) 0 True holed_world)) 0 RECORDS_NAME =
     Inr [0, 1, 2] \<and>
   elem_get (snd (get_data 1 (Instance block_v []) 0 True holed_world)) 0 RECORDS_NAME 1 =
     Inr ''BlockV:1.0.0''"
    by code_simp
  have v': "get_version_string block_v = Inr ''1.0.0''" using v by simp
  from s gi v' ri g' l' gd show ?thesis by blast
qed

section \<open>Properties of \<^verbatim>\<open>BaseData\<close>\<close>

lemma only_node_refl: "only_node n w w"
  by (simp add: only_node_def)

lemma only_node_trans: "only_node n w w1 \<Longrightarrow> only_node n w1 w2 \<Longrightarrow> only_node n w w2"
  by (simp add: only_node_def)

lemma only_node_put_node: "only_node n w (put_node n nd w)"
  by (auto simp: only_node_def put_node_def get_node_def node_exists_def)

lemma only_node_calls: "only_node n w (w\<lparr>calls := cs\<rparr>)"
  by (simp add: only_node_def get_node_def node_exists_def)

lemma addAttr_frame: "addAttr n a par multi w = (r, w') \<Longrightarrow> only_node n w w'"
  by (auto simp: addAttr_def only_node_refl only_node_put_node split: option.splits if_splits)

lemma put_elems_frame: "only_node n w (put_elems n a es w)"
  by (auto simp: put_elems_def only_node_refl only_node_put_node split: option.splits)

lemma elem_set_frame: "elem_set n a i v w = (r, w') \<Longrightarrow> only_node n w w'"
  by (auto simp: elem_set_def only_node_refl put_elems_frame split: option.splits if_splits)

lemma elem_relock_frame: "elem_relock l n a i w = (r, w') \<Longrightarrow> only_node n w w'"
  by (auto simp: elem_relock_def only_node_refl put_elems_frame split: option.splits)

lemma add_attr_frame:
  "add_attr n a p w = (r, w') \<Longrightarrow> only_node n w w'"
  "add_attr_children n as p w = (r, w') \<Longrightarrow> only_node n w w'"
proof (induction n a p w and n as p w arbitrary: r w' and r w' rule: add_attr_add_attr_children.induct)
  case (1 node n t fl parent_name w)
  then show ?case by (auto dest: addAttr_frame)
next
  case (2 node n t fl k ch parent_name w)
  show ?case
  proof (cases "valid_size k (length ch)")
    case False
    then show ?thesis using 2 by (simp add: only_node_refl)
  next
    case True
    obtain r1 w1 where a: "addAttr node n (if parent_name = [] then None else Some parent_name) False w = (r1, w1)"
      by (cases "addAttr node n (if parent_name = [] then None else Some parent_name) False w")
    have f1: "only_node node w w1" using a by (rule addAttr_frame)
    show ?thesis
    proof (cases r1)
      case (Inl e)
      then show ?thesis using 2(2) True a f1 by simp
    next
      case (Inr u)
      then have "add_attr_children node ch n w1 = (r, w')" using 2(2) True a by simp
      then have "only_node node w1 w'" using 2(1) True a Inr by simp
      with f1 show ?thesis by (rule only_node_trans)
    qed
  qed
next
  case (3 node parent_name w)
  then show ?case by (simp add: only_node_refl)
next
  case (4 node a as parent_name w)
  obtain r1 w1 where a: "add_attr node a parent_name w = (r1, w1)"
    by (cases "add_attr node a parent_name w")
  have f1: "only_node node w w1" using 4(1) a by simp
  show ?case
  proof (cases r1)
    case (Inl e)
    then show ?thesis using 4(3) a f1 by simp
  next
    case (Inr u)
    then have "add_attr_children node as parent_name w1 = (r, w')" using 4(3) a by simp
    then have "only_node node w1 w'" using 4(2) a Inr by simp
    with f1 show ?thesis by (rule only_node_trans)
  qed
qed

lemma priv_get_records_frame: "priv_get_records n force w = (r, w') \<Longrightarrow> only_node n w w'"
  by (auto simp: priv_get_records_def priv_create_records_def only_node_refl
           dest: addAttr_frame split: if_splits prod.splits sum.splits)

lemma priv_create_data_frame: "priv_create_data self n w = (r, w') \<Longrightarrow> only_node n w w'"
  by (auto simp: priv_create_data_def Let_def only_node_refl
           dest!: addAttr_frame add_attr_frame(2) intro: only_node_trans
           split: prod.splits sum.splits)

lemma priv_add_data_to_records_frame:
  "priv_add_data_to_records self (Some n) w = (r, w') \<Longrightarrow> only_node n w w'"
  by (auto simp: priv_add_data_to_records_def Let_def only_node_refl elem_lock_def
           dest!: elem_set_frame elem_relock_frame intro: only_node_trans
           split: prod.splits sum.splits)

lemma priv_get_records_handle:
  "priv_get_records n True w = (Inr rs, w') \<Longrightarrow> rs = Some n"
  by (auto simp: priv_get_records_def split: if_splits prod.splits sum.splits)

lemma get_data_add_frame: "get_data_add self n w = (r, w') \<Longrightarrow> only_node n w w'"
proof -
  assume a: "get_data_add self n w = (r, w')"
  obtain r1 w1 where g: "priv_get_records n True w = (r1, w1)"
    by (cases "priv_get_records n True w")
  have f1: "only_node n w w1" using g by (rule priv_get_records_frame)
  show ?thesis
  proof (cases r1)
    case (Inl e)
    then show ?thesis using a g f1 by (simp add: get_data_add_def)
  next
    case (Inr rs)
    then have rs: "rs = Some n" using g priv_get_records_handle by blast
    show ?thesis
    proof (cases "priv_find_attr_conflicts self n rs w1")
      case (Inl e)
      then show ?thesis using a g Inr f1 by (simp add: get_data_add_def)
    next
      case c: (Inr u)
      obtain r2 w2 where cd: "priv_create_data self n w1 = (r2, w2)"
        by (cases "priv_create_data self n w1")
      have f2: "only_node n w w2" using f1 priv_create_data_frame[OF cd] by (rule only_node_trans)
      show ?thesis
      proof (cases r2)
        case (Inl e)
        then show ?thesis using a g Inr c cd f2 by (simp add: get_data_add_def)
      next
        case d: (Inr data)
        obtain r3 w3 where ar: "priv_add_data_to_records self (Some n) w2 = (r3, w3)"
          by (cases "priv_add_data_to_records self (Some n) w2")
        have f3: "only_node n w w3" using f2 priv_add_data_to_records_frame[OF ar] by (rule only_node_trans)
        show ?thesis
        proof (cases r3)
          case (Inl e)
          then show ?thesis using a g Inr c cd d ar rs f3 by (simp add: get_data_add_def)
        next
          case (Inr u3)
          then have "w' = post_create data w3" using a g \<open>r1 = Inr rs\<close> c cd d ar rs
            by (simp add: get_data_add_def)
          then show ?thesis using f3 only_node_calls[of n w3]
            by (auto simp: post_create_def intro: only_node_trans)
        qed
      qed
    qed
  qed
qed

lemma get_record_fresh:
  "get_record c (length (nodes w)) (w\<lparr>nodes := nodes w @ [Some []]\<rparr>) = Inr None"
  by (simp add: get_record_def priv_get_record_by_name_def priv_get_records_def node_exists_def
        get_node_def hasAttr_def)

lemma BaseData_init_cls: "BaseData_init c kw = Inr inst \<Longrightarrow> i_cls inst = c"
  by (auto simp: BaseData_init_def split: sum.splits if_splits)

lemma create_node_frame:
  assumes "create_node d c w = (Inr (temp, data), w1)"
  shows "temp = length (nodes w) \<and> node_exists w1 temp \<and>
         (\<forall>m. m < length (nodes w) \<longrightarrow> get_node w1 m = get_node w m)"
proof (cases d)
  case 0
  then show ?thesis using assms
    by (simp add: create_node_def create_node_with_def createNode_def split: sum.splits)
next
  case (Suc d')
  let ?w0 = "w\<lparr>nodes := nodes w @ [Some []]\<rparr>"
  let ?n = "length (nodes w)"
  from assms obtain inst where bi: "BaseData_init c [] = Inr inst"
    and gd: "get_data (Suc d') inst ?n True ?w0 = (Inr data, w1)" and t: "temp = ?n"
    unfolding Suc
    by (auto simp: create_node_def create_node_with_def createNode_def
             split: sum.splits prod.splits)
  have "get_record (i_cls inst) ?n ?w0 = Inr None"
    by (rule get_record_fresh)
  then have "get_data_add inst ?n ?w0 = (Inr data, w1)"
    using gd by (simp add: get_data_step_def)
  then have f: "only_node ?n ?w0 w1" by (rule get_data_add_frame)
  have e0: "node_exists ?w0 ?n" by (simp add: node_exists_def get_node_def)
  have e1: "node_exists w1 ?n" using f e0 by (simp add: only_node_def)
  have "\<forall>m. m < ?n \<longrightarrow> get_node w1 m = get_node w m"
  proof (intro allI impI)
    fix m assume m: "m < ?n"
    then have "get_node w1 m = get_node ?w0 m" using f by (simp add: only_node_def)
    also have "\<dots> = get_node w m" using m by (simp add: get_node_def nth_append)
    finally show "get_node w1 m = get_node w m" .
  qed
  with t e1 show ?thesis by simp
qed

lemma copyAttr_fail: "copyAttr a b ns w = (Inl e, w') \<Longrightarrow> w' = w"
  by (auto simp: copyAttr_def split: option.splits if_splits)

lemma delete_existing:
  "node_exists w n \<Longrightarrow> delete n w = (Inr (), w\<lparr>nodes := (nodes w)[n := None]\<rparr>)"
  by (simp add: delete_def)

lemma node_exists_less: "node_exists w n \<Longrightarrow> n < length (nodes w)"
  by (auto simp: node_exists_def get_node_def split: if_splits)

text \<open>
  Claim C1. In \<^verbatim>\<open>update_version\<close>, when the scratch node was created and the first
  \<^verbatim>\<open>copyAttr\<close>, from the live node to the scratch node, fails: the scratch node is
  deleted, \<^verbatim>\<open>VersionUpdateException\<close> is raised with the message made of the data
  name, the old version and the current version of the class, and the live node is
  as it was before the call; \<^verbatim>\<open>deleteAttr\<close> on the live node comes only after a
  successful copy.
\<close>

theorem update_version_capture_failure:
  assumes "create_node d (i_cls self) w = (Inr (temp_node, data), w1)"
    and "get_attribute_names (i_cls self) = Inr name_list"
    and "copyAttr node temp_node name_list w1 = (Inl e, w2)"
    and "node_exists w node"
  shows "\<exists>w'. update_version d self node old_version_number w =
                (Inl (VersionUpdateException
                        (''Please impliment custom update logic for class: '' @
                         get_data_name (i_cls self) @
                         ''  oldVersion: '' @ repr_tuple old_version_number @
                         ''  newVersion: '' @ repr_tuple (self_version (i_cls self)))), w') \<and>
              \<not> node_exists w' temp_node \<and>
              get_node w' node = get_node w node"
proof -
  from create_node_frame[OF assms(1)]
  have t: "temp_node = length (nodes w)" and ex: "node_exists w1 temp_node"
    and fr: "\<forall>m. m < length (nodes w) \<longrightarrow> get_node w1 m = get_node w m" by auto
  have w2: "w2 = w1" using assms(3) by (rule copyAttr_fail)
  let ?w' = "w1\<lparr>nodes := (nodes w1)[temp_node := None]\<rparr>"
  have del: "delete temp_node w1 = (Inr (), ?w')" using ex by (rule delete_existing)
  have n: "node < length (nodes w)" using assms(4) by (rule node_exists_less)
  have uv: "update_version d self node old_version_number w =
                (Inl (VersionUpdateException
                        (update_message (get_data_name (i_cls self)) old_version_number
                           (self_version (i_cls self)))), ?w')"
    using assms(1,2,3) w2 del
    by (simp add: update_version_def update_version_with_def create_node_def)
  have gone: "\<not> node_exists ?w' temp_node"
    using ex by (auto simp: node_exists_def get_node_def)
  have "get_node ?w' node = get_node w1 node"
    using n t by (auto simp: get_node_def)
  then have same: "get_node ?w' node = get_node w node" using fr n by simp
  from uv gone same show ?thesis by (auto simp: update_message_def)
qed

theorem update_version_capture_failure_witness:
  "fst (update_version 1 (Instance block_v []) 0 [0, 9, 0] stale_world) =
     Inl (VersionUpdateException
            ''Please impliment custom update logic for class: BlockV  oldVersion: (0, 9, 0)  newVersion: (1, 0, 0)'') \<and>
   get_node (snd (update_version 1 (Instance block_v []) 0 [0, 9, 0] stale_world)) 0 = get_node stale_world 0 \<and>
   \<not> node_exists (snd (update_version 1 (Instance block_v []) 0 [0, 9, 0] stale_world)) 1"
proof -
  let ?w1 = "\<lparr>nodes =
     [Some [MAttr ''DataRecords'' None [] (Some [(0, ''BlockV:0.9.0'', True)]),
            MAttr ''BlockV'' None [] None,
            MAttr ''speedOld'' (Some ''BlockV'') ''3'' None],
      Some [MAttr ''DataRecords'' None [] (Some [(0, ''BlockV:1.0.0'', True)]),
            MAttr ''BlockV'' None [] None,
            MAttr ''speed'' (Some ''BlockV'') [] None]],
     calls = [PostCreate (1, ''BlockV'')]\<rparr>"
  have h1: "create_node 1 (i_cls (Instance block_v [])) stale_world = (Inr (1, Some (1, ''BlockV'')), ?w1)"
    by code_simp
  have h2: "get_attribute_names (i_cls (Instance block_v [])) = Inr [''speed'']"
    by code_simp
  have h3: "copyAttr 0 1 [''speed''] ?w1 = (Inl HostError, ?w1)"
    by code_simp
  have h4: "node_exists stale_world 0" by code_simp
  have m: "repr_tuple [0, 9, 0] = ''(0, 9, 0)''" "repr_tuple [1, 0, 0] = ''(1, 0, 0)''"
    "self_version block_v = [1, 0, 0]" "get_data_name block_v = ''BlockV''"
    by code_simp+
  from update_version_capture_failure[OF h1 h2 h3 h4, of "[0, 9, 0]"] m
  show ?thesis by auto
qed

lemma hasAttr_node_exists: "hasAttr w n a \<Longrightarrow> node_exists w n"
  by (auto simp: hasAttr_def node_exists_def split: option.splits)

text \<open>
  Claim C2, as amended. On a node that has the records array, with entries that
  \<^verbatim>\<open>Record\<close> can read, and no record of the class: when one of the names tested is
  already an attribute of the node, \<^verbatim>\<open>get_data(node, force_add = True)\<close> and
  \<^verbatim>\<open>add_data(node)\<close> fail with the diagnostic that lists the conflicting names, the
  class name and the names of the existing records, and the scene is unchanged. The
  names tested are the data name and, unless the instance being added carries the
  flag \<^verbatim>\<open>multi\<close> or \<^verbatim>\<open>m\<close>, the flattened attribute names of the class.
\<close>

theorem add_data_conflict:
  assumes "get_record (i_cls self) node w = Inr None"
    and "hasAttr w node RECORDS_NAME"
    and "get_attribute_names (i_cls self) = Inr names"
    and "getArrayIndices w node RECORDS_NAME = Inr indices"
    and "record_names w node indices = Inr rns"
    and "conflicts =
           filter (hasAttr w node)
             ((if has_key ''multi'' (i_flags self) \<or> has_key ''m'' (i_flags self)
               then [] else names) @ [get_data_name (i_cls self)])"
    and "conflicts \<noteq> []"
  shows "get_data (Suc d) self node True w =
           (Inl (PmError (AttrConflict conflicts (cls_name (i_cls self)) rns)), w) \<and>
         add_data (Suc d) self node w =
           (Inl (PmError (AttrConflict conflicts (cls_name (i_cls self)) rns)), w)"
proof -
  have ex: "node_exists w node" using assms(2) by (rule hasAttr_node_exists)
  have gr: "priv_get_records node True w = (Inr (Some node), w)"
    using ex assms(2) by (simp add: priv_get_records_def)
  have fc: "priv_find_attr_conflicts self node (Some node) w =
              Inl (PmError (AttrConflict conflicts (cls_name (i_cls self)) rns))"
    using assms(3,4,5,6,7) by (simp add: priv_find_attr_conflicts_def Let_def)
  have "get_data_add self node w =
          (Inl (PmError (AttrConflict conflicts (cls_name (i_cls self)) rns)), w)"
    using gr fc by (simp add: get_data_add_def)
  then show ?thesis using assms(1) by (simp add: get_data_step_def add_data_def)
qed

theorem add_data_conflict_witness:
  "get_data 1 (Instance block_b []) 0 True current_world =
     (Inl (PmError (AttrConflict [''speed''] ''BlockB'' [''BlockV''])), current_world)"
proof -
  have h1: "get_record (i_cls (Instance block_b [])) 0 current_world = Inr None" by code_simp
  have h2: "hasAttr current_world 0 RECORDS_NAME" by code_simp
  have h3: "get_attribute_names (i_cls (Instance block_b [])) = Inr [''speed'']" by code_simp
  have h4: "getArrayIndices current_world 0 RECORDS_NAME = Inr [0]" by code_simp
  have h5: "record_names current_world 0 [0] = Inr [''BlockV'']" by code_simp
  have h6: "[''speed''] =
           filter (hasAttr current_world 0)
             ((if has_key ''multi'' (i_flags (Instance block_b [])) \<or>
                  has_key ''m'' (i_flags (Instance block_b []))
               then [] else [''speed'']) @ [get_data_name (i_cls (Instance block_b []))])"
    by code_simp
  have h7: "[''speed''] \<noteq> ([] :: string list)" by simp
  have n: "cls_name (i_cls (Instance block_b [])) = ''BlockB''" by code_simp
  from add_data_conflict[OF h1 h2 h3 h4 h5 h6 h7, of 0] n show ?thesis by simp
qed

lemma BaseData_init_block_m:
  "BaseData_init block_m [] = Inr (Instance block_m [(''m'', PyBool True)])"
  by (simp add: BaseData_init_def init_class_attributes_def block_m_def dict_update_def
        clear_flags_def BaseData_invalid_def has_key_def)

lemma BaseData_init_block_a: "BaseData_init block_a [] = Inr (Instance block_a [])"
  by (simp add: BaseData_init_def init_class_attributes_def block_a_def dict_update_def
        clear_flags_def BaseData_invalid_def has_key_def)

text \<open>
  The claim as stated fails for a class flagged \<^verbatim>\<open>m\<close> whose attribute name
  \<^verbatim>\<open>speed\<close> is already on the node, from the block \<^verbatim>\<open>BlockV\<close> that is not flagged:
  \<^verbatim>\<open>_find_attr_conflicts\<close> reports nothing, \<^verbatim>\<open>_create_data\<close> runs, and the compound
  \<^verbatim>\<open>BlockM\<close> is on the node when the host refuses the second \<^verbatim>\<open>speed\<close>.
\<close>

theorem add_data_multi_counterexample:
  "BaseData_init block_m [] = Inr (Instance block_m [(''m'', PyBool True)]) \<and>
   get_attribute_names block_m = Inr [''speed''] \<and>
   hasAttr current_world 0 ''speed'' \<and>
   record_names current_world 0 [0] = Inr [''BlockV''] \<and>
   priv_find_attr_conflicts (Instance block_m [(''m'', PyBool True)]) 0 (Some 0) current_world = Inr () \<and>
   fst (get_data 1 (Instance block_m [(''m'', PyBool True)]) 0 True current_world) = Inl HostError \<and>
   hasAttr (snd (get_data 1 (Instance block_m [(''m'', PyBool True)]) 0 True current_world)) 0 ''BlockM'' \<and>
   \<not> hasAttr current_world 0 ''BlockM''"
proof -
  have "get_attribute_names block_m = Inr [''speed''] \<and>
   hasAttr current_world 0 ''speed'' \<and>
   record_names current_world 0 [0] = Inr [''BlockV''] \<and>
   priv_find_attr_conflicts (Instance block_m [(''m'', PyBool True)]) 0 (Some 0) current_world = Inr () \<and>
   fst (get_data 1 (Instance block_m [(''m'', PyBool True)]) 0 True current_world) = Inl HostError \<and>
   hasAttr (snd (get_data 1 (Instance block_m [(''m'', PyBool True)]) 0 True current_world)) 0 ''BlockM'' \<and>
   \<not> hasAttr current_world 0 ''BlockM''"
    by code_simp
  with BaseData_init_block_m show ?thesis by simp
qed

lemma get_data_add_block_a:
  "get_data_add (Instance block_a []) 0 fresh_world =
     (Inl TypeError,
      \<lparr>nodes = [Some [MAttr ''DataRecords'' None [] (Some []),
                      MAttr ''BlockA'' None [] None,
                      MAttr ''speed'' (Some ''BlockA'') [] None]],
       calls = []\<rparr>)"
  by code_simp

lemma get_record_block_a: "get_record (i_cls (Instance block_a [])) 0 fresh_world = Inr None"
  by code_simp

text \<open>
  Claim C3 on the code: for a class that follows the protocol of \<^verbatim>\<open>BaseData\<close>
  (\<open>block_a\<close>) and a node without attributes, \<^verbatim>\<open>get_data(node, force_add = True)\<close>
  creates the records array and the attributes, and then raises TypeError in
  \<^verbatim>\<open>get_version_string\<close>: no record is written, and \<^verbatim>\<open>post_create\<close> is not
  called.
\<close>

theorem add_data_version_string_type_error:
  "BaseData_init block_a [] = Inr (Instance block_a []) \<and>
   get_version_string block_a = Inl TypeError \<and>
   get_data (Suc d) (Instance block_a []) 0 True fresh_world =
     (Inl TypeError,
      \<lparr>nodes = [Some [MAttr ''DataRecords'' None [] (Some []),
                      MAttr ''BlockA'' None [] None,
                      MAttr ''speed'' (Some ''BlockA'') [] None]],
       calls = []\<rparr>)"
proof -
  have a: "BaseData_init block_a [] = Inr (Instance block_a [])" by (rule BaseData_init_block_a)
  have b: "get_version_string block_a = Inl TypeError" by code_simp
  show ?thesis using a b get_data_add_block_a get_record_block_a
    by (simp add: get_data_step_def)
qed

section \<open>Properties of \<^verbatim>\<open>Utils.find_attribute_conflicts\<close>\<close>

text \<open>
  Claim C4 on the code: with two subclasses that follow the protocol of
  \<^verbatim>\<open>BaseData\<close> and declare the same attribute name,
  \<^verbatim>\<open>Utils.find_attribute_conflicts\<close> raises AttributeError at the first subclass
  (\<^verbatim>\<open>GetDefaultFlags\<close> is not an attribute of it), whatever \<open>error_on_conflict\<close> is:
  it returns no mapping and emits no warning.
\<close>

theorem find_attribute_conflicts_attribute_error:
  "find_attribute_conflicts [block_a, block_b] True = (Inl AttributeError, []) \<and>
   find_attribute_conflicts [block_a, block_b] False = (Inl AttributeError, []) \<and>
   get_attribute_names block_a = Inr [''speed''] \<and>
   get_attribute_names block_b = Inr [''speed'']"
  by code_simp

end
